theory Spec2Isabelle
  imports Complex_Main "HOL-Library.Word" "HOL-Library.Signed_Division"
begin

unbundle bit_operations_syntax

section \<open>Go values\<close>

text \<open>
  powermon runs on Apple Silicon (arm64), where Go's \<^verbatim>\<open>int\<close> is a 64-bit two's
  complement integer: \<open>+\<close>, \<open>-\<close> and \<open>*\<close> wrap around, comparisons are signed
  (\<open><s\<close>, \<open>\<le>s\<close>), and \<^verbatim>\<open>/\<close> truncates towards zero.
  A Go string is a sequence of bytes; \<open>string\<close> (a list of 8-bit characters) is that
  sequence. The length of a string that exists in memory always fits an \<^verbatim>\<open>int\<close>, so
  lengths and rune counts are mathematical integers.
\<close>

type_synonym go_int = "64 word"

definition quo :: "go_int \<Rightarrow> go_int \<Rightarrow> go_int" where
  "quo a b = word_of_int (sint a sdiv sint b)"

definition maxInt :: int where
  "maxInt = 9223372036854775807"

definition minInt :: int where
  "minInt = - 9223372036854775808"

datatype panic = NegativeRepeatCount | RepeatOverflow | MakesliceLenOutOfRange

definition cells :: "string \<Rightarrow> nat \<Rightarrow> string" where
  "cells s n = concat (replicate n s)"

text \<open>
  The largest allocation that the Go runtime admits on darwin/arm64, where heap addresses
  have 48 bits: \<open>2^48\<close> bytes.
\<close>

definition maxAlloc :: int where
  "maxAlloc = 281474976710656"

text \<open>
  \<^verbatim>\<open>strings.Repeat(s, count)\<close> is \<open>count\<close> copies of \<open>s\<close>. A count of 0 or 1 is
  answered at once. Otherwise it panics on a negative count, panics when
  \<^verbatim>\<open>len(s) * count\<close> does not fit an \<^verbatim>\<open>int\<close>, and, unless \<open>s\<close> is empty, allocates the
  result: the allocation panics (\<^verbatim>\<open>makeslice: len out of range\<close>) when the result is longer
  than \<open>maxAlloc\<close> bytes. A process that runs out of memory below that limit is ended by
  a fatal error, which is not a panic and has no place in this model: an allocation that
  the runtime admits is taken to succeed.
\<close>

definition Repeat :: "string \<Rightarrow> int \<Rightarrow> panic + string" where
  "Repeat s count =
     (if count = 0 then Inr []
      else if count = 1 then Inr s
      else if count < 0 then Inl NegativeRepeatCount
      else if maxInt < int (length s) * count then Inl RepeatOverflow
      else if s = [] then Inr []
      else if maxAlloc < int (length s) * count then Inl MakesliceLenOutOfRange
      else Inr (cells s (nat count)))"

section \<open>ANSI colors and box glyphs\<close>

definition ESC :: char where
  "ESC = CHR 0x1B"

definition Reset :: string where
  "Reset = ESC # ''[0m''"

definition Red :: string where
  "Red = ESC # ''[31m''"

definition Green :: string where
  "Green = ESC # ''[32m''"

definition Yellow :: string where
  "Yellow = ESC # ''[33m''"

definition Blue :: string where
  "Blue = ESC # ''[34m''"

definition Magenta :: string where
  "Magenta = ESC # ''[35m''"

definition Cyan :: string where
  "Cyan = ESC # ''[36m''"

definition White :: string where
  "White = ESC # ''[37m''"

definition Dim :: string where
  "Dim = ESC # ''[2m''"

definition colors :: "string list" where
  "colors = [Reset, Red, Green, Yellow, Blue, Magenta, Cyan, White, Dim]"

text \<open>The glyphs of the bars and of the box, in UTF-8 (three bytes each).\<close>

definition full_block :: string where
  "full_block = [CHR 0xE2, CHR 0x96, CHR 0x88]"

definition light_shade :: string where
  "light_shade = [CHR 0xE2, CHR 0x96, CHR 0x91]"

definition box_vertical :: string where
  "box_vertical = [CHR 0xE2, CHR 0x95, CHR 0x91]"

section \<open>Bars\<close>

definition colorBar :: "go_int \<Rightarrow> go_int \<Rightarrow> string \<Rightarrow> panic + string" where
  "colorBar pct0 width color =
     (let pct1 = (if pct0 <s 0 then 0 else pct0);
          pct = (if 100 <s pct1 then 100 else pct1);
          filled = quo (pct * width) 100;
          empty0 = width - filled;
          empty = (if empty0 <s 0 then 0 else empty0)
      in case Repeat full_block (sint filled) of
           Inl e \<Rightarrow> Inl e
         | Inr f \<Rightarrow>
             (case Repeat light_shade (sint empty) of
                Inl e \<Rightarrow> Inl e
              | Inr g \<Rightarrow> Inr (color @ f @ Reset @ Dim @ g @ Reset)))"

definition splitBar :: "go_int \<Rightarrow> go_int \<Rightarrow> go_int \<Rightarrow> panic + string" where
  "splitBar sysPct0 batPct0 width =
     (let sysPct = (if sysPct0 <s 0 then 0 else sysPct0);
          batPct = (if batPct0 <s 0 then 0 else batPct0);
          sysBars0 = quo (sysPct * width) 100;
          batBars0 = width - sysBars0;
          sysBars = (if sysBars0 <s 0 then 0 else sysBars0);
          batBars = (if batBars0 <s 0 then 0 else batBars0)
      in case Repeat full_block (sint sysBars) of
           Inl e \<Rightarrow> Inl e
         | Inr f \<Rightarrow>
             (case Repeat full_block (sint batBars) of
                Inl e \<Rightarrow> Inl e
              | Inr g \<Rightarrow> Inr (Cyan @ f @ Reset @ Yellow @ g @ Reset)))"

section \<open>Visible length\<close>

text \<open>
  \<^verbatim>\<open>ansiRe = \x1b\[[0-9;]*m\<close>. Every element of the pattern is an ASCII character,
  and an ASCII byte of a Go string is always decoded as itself, so matching on bytes is
  matching on runes. The class \<^verbatim>\<open>[0-9;]\<close> excludes \<^verbatim>\<open>m\<close>, so the greedy star has one
  way to match: the longest run of parameter bytes, followed by \<^verbatim>\<open>m\<close>.
  \<open>ansi_match s\<close> is the rest of \<open>s\<close> behind a match that starts at its first byte.
\<close>

definition byte_in :: "nat \<Rightarrow> nat \<Rightarrow> char \<Rightarrow> bool" where
  "byte_in lo hi c = (lo \<le> (of_char c :: nat) \<and> (of_char c :: nat) \<le> hi)"

definition is_digit :: "char \<Rightarrow> bool" where
  "is_digit c = byte_in 0x30 0x39 c"

definition is_sgr_param :: "char \<Rightarrow> bool" where
  "is_sgr_param c = (is_digit c \<or> c = CHR '';'')"

fun ansi_match :: "string \<Rightarrow> string option" where
  "ansi_match (e # b # rest) =
     (if e = ESC \<and> b = CHR ''[''
      then (case dropWhile is_sgr_param rest of
              [] \<Rightarrow> None
            | m # rest' \<Rightarrow> if m = CHR ''m'' then Some rest' else None)
      else None)"
| "ansi_match _ = None"

text \<open>
  \<^verbatim>\<open>ansiRe.ReplaceAllString(s, "")\<close>: the matches are taken from left to right and do
  not overlap; a byte at which no match starts is copied.
\<close>

function strip_ansi :: "string \<Rightarrow> string" where
  "strip_ansi [] = []"
| "strip_ansi (c # cs) =
     (case ansi_match (c # cs) of
        Some rest \<Rightarrow> strip_ansi rest
      | None \<Rightarrow> c # strip_ansi cs)"
  by pat_completeness auto
termination
proof (relation "measure length")
  show "wf (measure length)" by simp
next
  fix c :: char and cs rest :: string
  assume m: "ansi_match (c # cs) = Some rest"
  from m obtain b r where cs: "cs = b # r"
    and d: "dropWhile is_sgr_param r = CHR ''m'' # rest"
    by (cases cs) (auto split: if_splits list.splits)
  have "length (dropWhile is_sgr_param r) \<le> length r"
    by (rule length_dropWhile_le)
  with cs d show "(rest, c # cs) \<in> measure length" by simp
next
  fix c :: char and cs :: string
  show "(cs, c # cs) \<in> measure length" by simp
qed

text \<open>
  \<^verbatim>\<open>len([]rune(s))\<close>: the number of runes of \<open>s\<close>. A well-formed UTF-8 sequence
  (no overlong form, no surrogate, at most U+10FFFF) is one rune; any other byte is one
  rune (U+FFFD) by itself. \<open>rune_size s\<close> is the number of bytes of the first rune.
\<close>

definition second_lo :: "nat \<Rightarrow> nat" where
  "second_lo b = (if b = 0xE0 then 0xA0 else if b = 0xF0 then 0x90 else 0x80)"

definition second_hi :: "nat \<Rightarrow> nat" where
  "second_hi b = (if b = 0xED then 0x9F else if b = 0xF4 then 0x8F else 0xBF)"

fun rune_size :: "string \<Rightarrow> nat" where
  "rune_size [] = 0"
| "rune_size (c # cs) =
     (let b = (of_char c :: nat) in
      if b < 0xC2 \<or> 0xF4 < b then 1
      else if b < 0xE0 then
        (case cs of
           c1 # _ \<Rightarrow> if byte_in 0x80 0xBF c1 then 2 else 1
         | _ \<Rightarrow> 1)
      else if b < 0xF0 then
        (case cs of
           c1 # c2 # _ \<Rightarrow>
             if byte_in (second_lo b) (second_hi b) c1 \<and> byte_in 0x80 0xBF c2 then 3 else 1
         | _ \<Rightarrow> 1)
      else
        (case cs of
           c1 # c2 # c3 # _ \<Rightarrow>
             if byte_in (second_lo b) (second_hi b) c1 \<and> byte_in 0x80 0xBF c2
                \<and> byte_in 0x80 0xBF c3 then 4 else 1
         | _ \<Rightarrow> 1))"

fun rune_count :: "string \<Rightarrow> nat" where
  "rune_count [] = 0"
| "rune_count (c # cs) = Suc (rune_count (drop (rune_size (c # cs) - 1) cs))"

definition visibleLen :: "string \<Rightarrow> int" where
  "visibleLen s = int (rune_count (strip_ansi s))"

definition line :: "string \<Rightarrow> panic + string" where
  "line content =
     (let width = 52;
          visible = visibleLen content;
          pad0 = width - visible;
          pad = (if pad0 < 0 then 0 else pad0)
      in case Repeat '' '' pad of
           Inl e \<Rightarrow> Inl e
         | Inr p \<Rightarrow> Inr (box_vertical @ '' '' @ content @ p @ '' '' @ box_vertical))"

section \<open>Floating point\<close>

text \<open>
  A \<^verbatim>\<open>float64\<close> is modelled by the rational number it denotes, or by one of the
  three special values. \<open>round64\<close> is IEEE 754 rounding to the nearest binary64 value,
  ties to even: 53 significant bits, subnormals below \<open>2^-1022\<close>, overflow to infinity
  from \<open>2^1024 - 2^970\<close> on. The sign of a zero is not represented.
\<close>

datatype f64 = Fin rat | PosInf | NegInf | NaN

definition pow2 :: "int \<Rightarrow> rat" where
  "pow2 e = (if 0 \<le> e then 2 ^ nat e else 1 / 2 ^ nat (- e))"

function bit_length :: "int \<Rightarrow> int" where
  "bit_length n = (if n \<le> 0 then 0 else 1 + bit_length (n div 2))"
  by pat_completeness auto
termination
  by (relation "measure nat") auto

text \<open>\<open>ilog2 a\<close> is the exponent \<open>e\<close> with \<open>2^e \<le> a < 2^(e+1)\<close>, for positive \<open>a\<close>.\<close>

definition ilog2 :: "rat \<Rightarrow> int" where
  "ilog2 a =
     (let (n, d) = quotient_of a;
          k = bit_length n - bit_length d
      in if pow2 k \<le> a then k else k - 1)"

definition round_half_even :: "rat \<Rightarrow> int" where
  "round_half_even x =
     (let f = \<lfloor>x\<rfloor>; r = x - of_int f
      in if r < 1 / 2 then f
         else if 1 / 2 < r then f + 1
         else if even f then f else f + 1)"

definition round64 :: "rat \<Rightarrow> f64" where
  "round64 q =
     (if q = 0 then Fin 0
      else let a = \<bar>q\<bar>;
               e = max (- 1022) (ilog2 a);
               u = pow2 (e - 52);
               r = of_int (round_half_even (a / u)) * u
           in if pow2 1024 \<le> r then (if 0 < q then PosInf else NegInf)
              else Fin (sgn q * r))"

definition sign_of :: "f64 \<Rightarrow> rat" where
  "sign_of x = (case x of Fin a \<Rightarrow> sgn a | PosInf \<Rightarrow> 1 | NegInf \<Rightarrow> - 1 | NaN \<Rightarrow> 0)"

definition inf_of_sign :: "rat \<Rightarrow> f64" where
  "inf_of_sign s = (if 0 < s then PosInf else if s < 0 then NegInf else NaN)"

fun f64_neg :: "f64 \<Rightarrow> f64" where
  "f64_neg (Fin a) = Fin (- a)"
| "f64_neg PosInf = NegInf"
| "f64_neg NegInf = PosInf"
| "f64_neg NaN = NaN"

fun f64_mul :: "f64 \<Rightarrow> f64 \<Rightarrow> f64" where
  "f64_mul NaN y = NaN"
| "f64_mul x NaN = NaN"
| "f64_mul (Fin a) (Fin b) = round64 (a * b)"
| "f64_mul x y = inf_of_sign (sign_of x * sign_of y)"

text \<open>
  Division by a zero takes the zero as positive; the program divides by the constants
  1000 and 100 and by a charger wattage that it has tested to be positive.
\<close>

fun f64_div :: "f64 \<Rightarrow> f64 \<Rightarrow> f64" where
  "f64_div NaN y = NaN"
| "f64_div x NaN = NaN"
| "f64_div (Fin a) (Fin b) = (if b = 0 then inf_of_sign (sgn a) else round64 (a / b))"
| "f64_div (Fin a) y = Fin 0"
| "f64_div x (Fin b) = inf_of_sign (sign_of x * (if b < 0 then - 1 else 1))"
| "f64_div x y = NaN"

fun f64_add :: "f64 \<Rightarrow> f64 \<Rightarrow> f64" where
  "f64_add NaN y = NaN"
| "f64_add x NaN = NaN"
| "f64_add (Fin a) (Fin b) = round64 (a + b)"
| "f64_add (Fin a) y = y"
| "f64_add x (Fin b) = x"
| "f64_add x y = (if x = y then x else NaN)"

definition f64_sub :: "f64 \<Rightarrow> f64 \<Rightarrow> f64" where
  "f64_sub x y = f64_add x (f64_neg y)"

text \<open>\<^verbatim>\<open>float64(n)\<close> for an \<^verbatim>\<open>int\<close> \<open>n\<close>.\<close>

definition f64_of_int :: "go_int \<Rightarrow> f64" where
  "f64_of_int n = round64 (of_int (sint n))"

text \<open>
  \<^verbatim>\<open>int(x)\<close> for a \<^verbatim>\<open>float64\<close> \<open>x\<close> discards the fraction. Go leaves the result open
  when the value does not fit; the arm64 instruction saturates and turns NaN into 0.
\<close>

definition truncate_rat :: "rat \<Rightarrow> int" where
  "truncate_rat a = (if 0 \<le> a then \<lfloor>a\<rfloor> else \<lceil>a\<rceil>)"

definition saturate :: "int \<Rightarrow> go_int" where
  "saturate k = word_of_int (max minInt (min maxInt k))"

fun f64_to_int :: "f64 \<Rightarrow> go_int" where
  "f64_to_int (Fin a) = saturate (truncate_rat a)"
| "f64_to_int PosInf = word_of_int maxInt"
| "f64_to_int NegInf = word_of_int minInt"
| "f64_to_int NaN = 0"

section \<open>Parsing numbers\<close>

definition digit_val :: "char \<Rightarrow> int" where
  "digit_val c = of_char c - 48"

definition dec_value :: "string \<Rightarrow> int" where
  "dec_value ds = foldl (\<lambda>n c. 10 * n + digit_val c) 0 ds"

text \<open>
  \<^verbatim>\<open>strconv.Atoi\<close>: an optional sign and one or more decimal digits. The result is the
  value and whether the error is nil. A string of another form is a syntax error with
  value 0; a value that does not fit an \<^verbatim>\<open>int\<close> is a range error with the nearest
  \<^verbatim>\<open>int\<close> as value.
\<close>

definition Atoi :: "string \<Rightarrow> go_int \<times> bool" where
  "Atoi s =
     (let neg = (s \<noteq> [] \<and> hd s = CHR ''-'');
          ds = (if s \<noteq> [] \<and> (hd s = CHR ''-'' \<or> hd s = CHR ''+'') then tl s else s)
      in if ds = [] \<or> \<not> list_all is_digit ds then (0, False)
         else let v = (if neg then - dec_value ds else dec_value ds)
              in if maxInt < v then (word_of_int maxInt, False)
                 else if v < minInt then (word_of_int minInt, False)
                 else (word_of_int v, True))"

text \<open>
  \<^verbatim>\<open>strconv.ParseFloat(s, 64)\<close> on the strings the program gives it, which are captures
  of \<^verbatim>\<open>[\d.]+\<close>: digits with at most one point and at least one digit denote a decimal
  number, which is rounded to the nearest \<^verbatim>\<open>float64\<close> (a range error with value
  \<open>+Inf\<close> when it is too large); any other string of digits and points is a syntax error
  with value 0. The result is the value and whether the error is nil.
\<close>

definition decimal_value :: "string \<Rightarrow> rat" where
  "decimal_value s =
     (let ip = takeWhile is_digit s;
          fp = drop 1 (dropWhile is_digit s)
      in of_int (dec_value (ip @ fp)) / 10 ^ length fp)"

definition decimal_syntax :: "string \<Rightarrow> bool" where
  "decimal_syntax s =
     (let ip = takeWhile is_digit s;
          rest = dropWhile is_digit s
      in (rest = [] \<or> (hd rest = CHR ''.'' \<and> list_all is_digit (tl rest)))
         \<and> (ip \<noteq> [] \<or> drop 1 rest \<noteq> []))"

definition ParseFloat :: "string \<Rightarrow> f64 \<times> bool" where
  "ParseFloat s =
     (if decimal_syntax s
      then (let x = round64 (decimal_value s) in (x, x \<noteq> PosInf))
      else (Fin 0, False))"

section \<open>Patterns\<close>

text \<open>
  A compiled pattern is modelled by what \<^verbatim>\<open>FindStringSubmatch\<close> returns for it: the
  empty list (nil) when the pattern matches nowhere, and otherwise the text of the
  leftmost match followed by the text of each capture group.

  Every pattern of the program is a literal followed by runs of character classes, and
  each class excludes the character that must follow its run, so a match that starts at a
  given position is unique: each run is the longest one. An anchored matcher returns the
  match that starts at the first byte of the text; \<open>leftmost\<close> tries the start positions
  from left to right.
\<close>

type_synonym regexp = "string \<Rightarrow> string list"

fun strip_prefix :: "string \<Rightarrow> string \<Rightarrow> string option" where
  "strip_prefix [] s = Some s"
| "strip_prefix (p # ps) [] = None"
| "strip_prefix (p # ps) (c # cs) = (if p = c then strip_prefix ps cs else None)"

definition HasPrefix :: "string \<Rightarrow> string \<Rightarrow> bool" where
  "HasPrefix s prefix = (strip_prefix prefix s \<noteq> None)"

fun leftmost :: "(string \<Rightarrow> string list option) \<Rightarrow> regexp" where
  "leftmost anchored [] = (case anchored [] of None \<Rightarrow> [] | Some m \<Rightarrow> m)"
| "leftmost anchored (c # cs) =
     (case anchored (c # cs) of None \<Rightarrow> leftmost anchored cs | Some m \<Rightarrow> m)"

text \<open>\<^verbatim>\<open>\s\<close> is \<^verbatim>\<open>[\t\n\f\r ]\<close>, \<^verbatim>\<open>\d\<close> is \<^verbatim>\<open>[0-9]\<close>.\<close>

definition is_space :: "char \<Rightarrow> bool" where
  "is_space c = (c = CHR 0x09 \<or> c = CHR 0x0A \<or> c = CHR 0x0C \<or> c = CHR 0x0D \<or> c = CHR '' '')"

definition is_num_char :: "char \<Rightarrow> bool" where
  "is_num_char c = (is_digit c \<or> c = CHR ''.'')"

text \<open>\<^verbatim>\<open>lit(\d+)\<close>\<close>

definition lit_digits :: "string \<Rightarrow> string \<Rightarrow> string list option" where
  "lit_digits lit s =
     (case strip_prefix lit s of
        None \<Rightarrow> None
      | Some r \<Rightarrow>
          (let d = takeWhile is_digit r
           in if d = [] then None else Some [lit @ d, d]))"

text \<open>
  \<^verbatim>\<open>lit(-?\d+)\<close>: when a minus sign is not followed by a digit, the match without the
  sign fails at the sign as well.
\<close>

definition lit_signed :: "string \<Rightarrow> string \<Rightarrow> string list option" where
  "lit_signed lit s =
     (case strip_prefix lit s of
        None \<Rightarrow> None
      | Some r \<Rightarrow>
          (let sign = (if r \<noteq> [] \<and> hd r = CHR ''-'' then ''-'' else '''');
               d = takeWhile is_digit (drop (length sign) r)
           in if d = [] then None else Some [lit @ sign @ d, sign @ d]))"

text \<open>\<^verbatim>\<open>lit(Yes|No)\<close>\<close>

definition lit_yes_no :: "string \<Rightarrow> string \<Rightarrow> string list option" where
  "lit_yes_no lit s =
     (case strip_prefix lit s of
        None \<Rightarrow> None
      | Some r \<Rightarrow>
          if strip_prefix ''Yes'' r \<noteq> None then Some [lit @ ''Yes'', ''Yes'']
          else if strip_prefix ''No'' r \<noteq> None then Some [lit @ ''No'', ''No'']
          else None)"

text \<open>\<^verbatim>\<open>lit\s+([\d.]+)\s+mW\<close>\<close>

definition lit_milliwatts :: "string \<Rightarrow> string \<Rightarrow> string list option" where
  "lit_milliwatts lit s =
     (case strip_prefix lit s of
        None \<Rightarrow> None
      | Some r \<Rightarrow>
          (let ws1 = takeWhile is_space r;
               r1 = dropWhile is_space r;
               num = takeWhile is_num_char r1;
               r2 = dropWhile is_num_char r1;
               ws2 = takeWhile is_space r2;
               r3 = dropWhile is_space r2
           in if ws1 \<noteq> [] \<and> num \<noteq> [] \<and> ws2 \<noteq> [] \<and> strip_prefix ''mW'' r3 \<noteq> None
              then Some [lit @ ws1 @ num @ ws2 @ ''mW'', num]
              else None))"

text \<open>\<^verbatim>\<open>lit\s+(\d+)\<close>\<close>

definition lit_space_digits :: "string \<Rightarrow> string \<Rightarrow> string list option" where
  "lit_space_digits lit s =
     (case strip_prefix lit s of
        None \<Rightarrow> None
      | Some r \<Rightarrow>
          (let ws = takeWhile is_space r;
               d = takeWhile is_digit (dropWhile is_space r)
           in if ws \<noteq> [] \<and> d \<noteq> [] then Some [lit @ ws @ d, d] else None))"

text \<open>The patterns of \<^verbatim>\<open>pollIoreg\<close>, by their keys in its table.\<close>

definition pat_watts :: regexp where
  "pat_watts = leftmost (lit_digits ''\"Watts\"='')"

definition pat_adapterV :: regexp where
  "pat_adapterV = leftmost (lit_digits ''\"AdapterVoltage\"='')"

definition pat_adapterA :: regexp where
  "pat_adapterA = leftmost (lit_digits ''\"Current\"='')"

definition pat_batteryV :: regexp where
  "pat_batteryV = leftmost (lit_digits ''\"AppleRawBatteryVoltage\" = '')"

definition pat_batteryA :: regexp where
  "pat_batteryA = leftmost (lit_signed ''\"Amperage\" = '')"

definition pat_temp :: regexp where
  "pat_temp = leftmost (lit_digits ''\"Temperature\" = '')"

definition pat_charging :: regexp where
  "pat_charging = leftmost (lit_yes_no ''\"IsCharging\" = '')"

definition pat_external :: regexp where
  "pat_external = leftmost (lit_yes_no ''\"ExternalConnected\" = '')"

text \<open>The patterns of \<^verbatim>\<open>main\<close>.\<close>

definition cpuPowerRe :: regexp where
  "cpuPowerRe = leftmost (lit_milliwatts ''CPU Power:'')"

definition gpuPowerRe :: regexp where
  "gpuPowerRe = leftmost (lit_milliwatts ''GPU Power:'')"

definition anePowerRe :: regexp where
  "anePowerRe = leftmost (lit_milliwatts ''ANE Power:'')"

definition packageRe :: regexp where
  "packageRe = leftmost (lit_milliwatts ''Combined Power (CPU + GPU + ANE):'')"

definition batteryPctRe :: regexp where
  "batteryPctRe = leftmost (lit_space_digits ''percent_charge:'')"

section \<open>The snapshot\<close>

text \<open>
  The shared record \<^verbatim>\<open>data\<close>. Its lock is not a field of the model: every section of
  the program that holds the lock is one function from snapshot to snapshot.
\<close>

record PowerData =
  CPUPower :: f64
  GPUPower :: f64
  ANEPower :: f64
  PackagePower :: f64
  BatteryPct :: go_int
  ChargerWatts :: go_int
  ChargerVoltage :: go_int
  ChargerCurrent :: go_int
  BatteryVoltage :: go_int
  BatteryAmps :: go_int
  Temperature :: go_int
  IsCharging :: bool
  OnAC :: bool

text \<open>The zero value of the record, the state of \<^verbatim>\<open>data\<close> at program start.\<close>

definition zero_data :: PowerData where
  "zero_data =
     \<lparr>CPUPower = Fin 0, GPUPower = Fin 0, ANEPower = Fin 0, PackagePower = Fin 0,
      BatteryPct = 0, ChargerWatts = 0, ChargerVoltage = 0, ChargerCurrent = 0,
      BatteryVoltage = 0, BatteryAmps = 0, Temperature = 0,
      IsCharging = False, OnAC = False\<rparr>"

section \<open>The slow producer\<close>

definition extractInt :: "string \<Rightarrow> regexp \<Rightarrow> go_int \<Rightarrow> go_int \<Rightarrow> go_int \<times> bool" where
  "extractInt s re mn mx =
     (let m = re s
      in if 1 < length m
         then (let (v, ok) = Atoi (m ! 1)
               in if ok \<and> mn \<le>s v \<and> v \<le>s mx then (v, True) else (0, False))
         else (0, False))"

text \<open>The body of the loop of \<^verbatim>\<open>pollIoreg\<close> between \<^verbatim>\<open>Lock\<close> and \<^verbatim>\<open>Unlock\<close>.\<close>

definition ioreg_update :: "string \<Rightarrow> PowerData \<Rightarrow> PowerData" where
  "ioreg_update s d0 =
     (let d1 = (case extractInt s pat_watts 0 500 of
                  (v, ok) \<Rightarrow> if ok then d0\<lparr>ChargerWatts := v\<rparr> else d0);
          d2 = (case extractInt s pat_adapterV 0 50000 of
                  (v, ok) \<Rightarrow> if ok then d1\<lparr>ChargerVoltage := v\<rparr> else d1);
          d3 = (case extractInt s pat_adapterA 0 10000 of
                  (v, ok) \<Rightarrow> if ok then d2\<lparr>ChargerCurrent := v\<rparr> else d2);
          d4 = (case extractInt s pat_batteryV 5000 25000 of
                  (v, ok) \<Rightarrow> if ok then d3\<lparr>BatteryVoltage := v\<rparr> else d3);
          d5 = (case extractInt s pat_batteryA (- 15000) 15000 of
                  (v, ok) \<Rightarrow> if ok then d4\<lparr>BatteryAmps := v\<rparr> else d4);
          d6 = (case extractInt s pat_temp 0 10000 of
                  (v, ok) \<Rightarrow> if ok then d5\<lparr>Temperature := v\<rparr> else d5);
          d7 = (let m = pat_charging s
                in if 1 < length m then d6\<lparr>IsCharging := (m ! 1 = ''Yes'')\<rparr> else d6);
          d8 = (let m = pat_external s
                in if 1 < length m then d7\<lparr>OnAC := (m ! 1 = ''Yes'')\<rparr> else d7)
      in d8)"

section \<open>The program state\<close>

text \<open>
  What the program can change: the snapshot and the terminal. \<open>stdout\<close> is everything
  printed so far. Two counters observe the run without being part of it: \<open>renders\<close>
  counts the calls of \<^verbatim>\<open>render\<close>, \<open>slept\<close> the seconds that \<^verbatim>\<open>pollIoreg\<close> has slept.
\<close>

record world =
  data :: PowerData
  stdout :: string
  renders :: nat
  slept :: nat

definition Print :: "string \<Rightarrow> world \<Rightarrow> world" where
  "Print s w = w\<lparr>stdout := stdout w @ s\<rparr>"

definition Println :: "string \<Rightarrow> world \<Rightarrow> world" where
  "Println s w = w\<lparr>stdout := stdout w @ s @ [CHR 0x0A]\<rparr>"

text \<open>
  One turn of the loop of \<^verbatim>\<open>pollIoreg\<close>. The outcome of
  \<^verbatim>\<open>exec.Command("ioreg", ...).Output()\<close> is the captured output and the error, \<open>None\<close>
  for nil; a command that cannot be started or exits with a non-zero status has an error.
\<close>

type_synonym cmd_result = "string \<times> string option"

definition poll_cycle :: "cmd_result \<Rightarrow> world \<Rightarrow> world" where
  "poll_cycle r w =
     (let (out, err) = r;
          w1 = (if err = None then w\<lparr>data := ioreg_update out (data w)\<rparr> else w)
      in w1\<lparr>slept := slept w1 + 5\<rparr>)"

text \<open>
  The loop never ends; its state after the first \<open>n\<close> turns is \<open>pollIoreg\<close> of the
  outcomes of the first \<open>n\<close> runs of the command.
\<close>

fun pollIoreg :: "cmd_result list \<Rightarrow> world \<Rightarrow> world" where
  "pollIoreg [] w = w"
| "pollIoreg (r # rs) w = pollIoreg rs (poll_cycle r w)"

section \<open>The fast producer\<close>

text \<open>
  The body of the scan loop of \<^verbatim>\<open>main\<close> between \<^verbatim>\<open>Lock\<close> and \<^verbatim>\<open>Unlock\<close>. Each of
  the five patterns has one capture group, so a match \<open>m\<close> has the two elements
  \<open>m ! 0\<close> and \<open>m ! 1\<close>. The errors of \<^verbatim>\<open>ParseFloat\<close> and \<^verbatim>\<open>Atoi\<close> are discarded and
  the returned value is stored.
\<close>

definition process_line :: "string \<Rightarrow> PowerData \<Rightarrow> PowerData" where
  "process_line text d0 =
     (let d1 = (let m = cpuPowerRe text
                in if m \<noteq> [] then d0\<lparr>CPUPower := fst (ParseFloat (m ! 1))\<rparr> else d0);
          d2 = (let m = gpuPowerRe text
                in if m \<noteq> [] then d1\<lparr>GPUPower := fst (ParseFloat (m ! 1))\<rparr> else d1);
          d3 = (let m = anePowerRe text
                in if m \<noteq> [] then d2\<lparr>ANEPower := fst (ParseFloat (m ! 1))\<rparr> else d2);
          d4 = (let m = packageRe text
                in if m \<noteq> [] then d3\<lparr>PackagePower := fst (ParseFloat (m ! 1))\<rparr> else d3);
          d5 = (let m = batteryPctRe text
                in if m \<noteq> [] then d4\<lparr>BatteryPct := fst (Atoi (m ! 1))\<rparr> else d4)
      in d5)"

section \<open>The renderer\<close>

text \<open>
  The quantities that \<^verbatim>\<open>render\<close> derives from the snapshot, by the names of its local
  variables.
\<close>

definition cpuW :: "PowerData \<Rightarrow> f64" where
  "cpuW d = f64_div (CPUPower d) (Fin 1000)"

definition gpuW :: "PowerData \<Rightarrow> f64" where
  "gpuW d = f64_div (GPUPower d) (Fin 1000)"

definition aneW :: "PowerData \<Rightarrow> f64" where
  "aneW d = f64_div (ANEPower d) (Fin 1000)"

definition siliconW :: "PowerData \<Rightarrow> f64" where
  "siliconW d = f64_div (PackagePower d) (Fin 1000)"

definition chargerV :: "PowerData \<Rightarrow> f64" where
  "chargerV d = f64_div (f64_of_int (ChargerVoltage d)) (Fin 1000)"

definition chargerA :: "PowerData \<Rightarrow> f64" where
  "chargerA d = f64_div (f64_of_int (ChargerCurrent d)) (Fin 1000)"

definition batteryV :: "PowerData \<Rightarrow> f64" where
  "batteryV d = f64_div (f64_of_int (BatteryVoltage d)) (Fin 1000)"

definition batteryA :: "PowerData \<Rightarrow> f64" where
  "batteryA d = f64_div (f64_of_int (BatteryAmps d)) (Fin 1000)"

definition batteryW :: "PowerData \<Rightarrow> f64" where
  "batteryW d = f64_mul (batteryV d) (batteryA d)"

definition tempC :: "PowerData \<Rightarrow> f64" where
  "tempC d = f64_div (f64_of_int (Temperature d)) (Fin 100)"

definition systemW :: "PowerData \<Rightarrow> f64" where
  "systemW d = f64_sub (f64_of_int (ChargerWatts d)) (batteryW d)"

definition drainW :: "PowerData \<Rightarrow> f64" where
  "drainW d = f64_neg (batteryW d)"

definition batteryPct :: "PowerData \<Rightarrow> go_int" where
  "batteryPct d =
     (let p0 = f64_to_int (f64_mul (f64_div (batteryW d) (f64_of_int (ChargerWatts d))) (Fin 100));
          p1 = (if p0 <s 0 then 0 else p0)
      in if 100 <s p1 then 100 else p1)"

definition systemPct :: "PowerData \<Rightarrow> go_int" where
  "systemPct d = 100 - batteryPct d"

definition status :: "PowerData \<Rightarrow> string" where
  "status d =
     (if IsCharging d then Green @ ''charging'' @ Reset
      else if OnAC d then Blue @ ''full/maintaining'' @ Reset
      else Red @ ''draining'' @ Reset)"

text \<open>
  Formatting. \<^verbatim>\<open>%d\<close> is the decimal numeral of an \<^verbatim>\<open>int\<close>. The text that
  \<^verbatim>\<open>Sprintf\<close> produces for a \<^verbatim>\<open>float64\<close> under \<^verbatim>\<open>%w.pf\<close>, and the text of the clock
  at each call of \<^verbatim>\<open>render\<close>, are inputs of the model: \<open>fmt_float env w p x\<close> and
  \<open>clock env n\<close> for the \<open>n\<close>-th call.
\<close>

function digits_of :: "int \<Rightarrow> string" where
  "digits_of n =
     (if n < 10 then [char_of (48 + n)]
      else digits_of (n div 10) @ [char_of (48 + n mod 10)])"
  by pat_completeness auto
termination
  by (relation "measure nat") auto

definition itoa :: "go_int \<Rightarrow> string" where
  "itoa n = (if sint n < 0 then CHR ''-'' # digits_of (- sint n) else digits_of (sint n))"

record fmt_env =
  fmt_float :: "nat \<Rightarrow> nat \<Rightarrow> f64 \<Rightarrow> string"
  clock :: "nat \<Rightarrow> string"

definition glyph :: "nat \<Rightarrow> nat \<Rightarrow> nat \<Rightarrow> string" where
  "glyph a b c = [char_of a, char_of b, char_of c]"

definition border :: "string \<Rightarrow> string \<Rightarrow> string" where
  "border left right = left @ cells (glyph 0xE2 0x95 0x90) 54 @ right"

definition top_border :: string where
  "top_border = border (glyph 0xE2 0x95 0x94) (glyph 0xE2 0x95 0x97)"

definition mid_border :: string where
  "mid_border = border (glyph 0xE2 0x95 0xA0) (glyph 0xE2 0x95 0xA3)"

definition bottom_border :: string where
  "bottom_border = border (glyph 0xE2 0x95 0x9A) (glyph 0xE2 0x95 0x9D)"

definition times_sign :: string where
  "times_sign = [char_of (0xC3::nat), char_of (0x97::nat)]"

definition arrow :: string where
  "arrow = glyph 0xE2 0x86 0x92"

definition thin_bar :: string where
  "thin_bar = glyph 0xE2 0x94 0x82"

definition degree :: string where
  "degree = [char_of (0xC2::nat), char_of (0xB0::nat)]"

text \<open>
  A statement of \<^verbatim>\<open>render\<close> is a step from world to world that may panic;
  \<open>steps\<close> runs a list of statements in order and stops at the first panic.
\<close>

type_synonym step = "world \<Rightarrow> panic + world"

fun steps :: "step list \<Rightarrow> step" where
  "steps [] w = Inr w"
| "steps (f # fs) w = (case f w of Inl e \<Rightarrow> Inl e | Inr w' \<Rightarrow> steps fs w')"

definition say :: "string \<Rightarrow> step" where
  "say s w = Inr (Print s w)"

definition sayln :: "string \<Rightarrow> step" where
  "sayln s w = Inr (Println s w)"

text \<open>\<^verbatim>\<open>fmt.Println(line(content))\<close>\<close>

definition println_line :: "string \<Rightarrow> step" where
  "println_line content w =
     (case line content of Inl e \<Rightarrow> Inl e | Inr row \<Rightarrow> Inr (Println row w))"

text \<open>A statement that first computes a bar.\<close>

definition with_bar :: "panic + string \<Rightarrow> (string \<Rightarrow> step) \<Rightarrow> step" where
  "with_bar bar k w = (case bar of Inl e \<Rightarrow> Inl e | Inr b \<Rightarrow> k b w)"

definition render :: "fmt_env \<Rightarrow> step" where
  "render env w =
     (let d = data w;
          f = fmt_float env
      in steps
          ([say (ESC # ''[H''),
            sayln top_border,
            println_line ''       LIVE POWER MONITOR  (Ctrl+C to stop)'',
            sayln mid_border,
            println_line (Magenta @ ''SILICON'' @ Reset @ '' (live)''),
            with_bar (colorBar (f64_to_int (f64_mul (cpuW d) (Fin 10))) 20 Magenta)
              (\<lambda>bar. println_line (''  CPU:  '' @ f 5 2 (cpuW d) @ '' W  ['' @ bar @ '']'')),
            with_bar (colorBar (f64_to_int (f64_mul (gpuW d) (Fin 10))) 20 Magenta)
              (\<lambda>bar. println_line (''  GPU:  '' @ f 5 2 (gpuW d) @ '' W  ['' @ bar @ '']'')),
            with_bar (colorBar (f64_to_int (f64_mul (aneW d) (Fin 10))) 20 Magenta)
              (\<lambda>bar. println_line (''  ANE:  '' @ f 5 2 (aneW d) @ '' W  ['' @ bar @ '']'')),
            println_line (''  Chip: '' @ f 5 2 (siliconW d) @ '' W''),
            sayln mid_border]
           @ (if OnAC d
              then [println_line (Green @ ''CHARGER'' @ Reset),
                    println_line (''  '' @ f 0 1 (chargerV d) @ ''V '' @ times_sign @ '' ''
                                  @ f 0 2 (chargerA d) @ ''A = '' @ Green
                                  @ itoa (ChargerWatts d) @ ''W'' @ Reset),
                    sayln mid_border,
                    println_line ''POWER SPLIT (~30s refresh)'',
                    println_line (''  '' @ arrow @ '' '' @ Cyan @ ''System:  ''
                                  @ f 5 1 (systemW d) @ '' W'' @ Reset),
                    println_line (''  '' @ arrow @ '' '' @ Yellow @ ''Battery: ''
                                  @ f 5 1 (batteryW d) @ '' W'' @ Reset)]
                   @ (if 0 <s ChargerWatts d
                      then [with_bar (splitBar (systemPct d) (batteryPct d) 40)
                              (\<lambda>bar. println_line (''  ['' @ bar @ '']'')),
                            println_line (''   '' @ Cyan @ ''system '' @ itoa (systemPct d)
                                          @ ''%'' @ Reset @ ''          '' @ Yellow
                                          @ ''battery '' @ itoa (batteryPct d) @ ''%'' @ Reset)]
                      else [])
              else [println_line (Red @ ''ON BATTERY'' @ Reset),
                    println_line (''  Drain: '' @ Red @ f 0 1 (drainW d) @ '' W'' @ Reset)])
           @ [sayln mid_border,
              println_line (Yellow @ ''BATTERY'' @ Reset),
              println_line (''  '' @ itoa (BatteryPct d) @ ''% '' @ thin_bar @ '' ''
                            @ f 0 2 (batteryV d) @ ''V '' @ thin_bar @ '' ''
                            @ itoa (BatteryAmps d) @ ''mA '' @ thin_bar @ '' ''
                            @ f 0 1 (tempC d) @ degree @ ''C''),
              println_line (''  '' @ status d),
              with_bar (colorBar (BatteryPct d) 44 Yellow)
                (\<lambda>bar. println_line (''  ['' @ bar @ '']'')),
              sayln mid_border,
              println_line (clock env (renders w)),
              sayln bottom_border,
              sayln ''''])
          (w\<lparr>renders := renders w + 1\<rparr>))"

section \<open>The main goroutine\<close>

text \<open>
  \<^verbatim>\<open>main\<close>, from its first statement to its return. Its inputs are the errors of
  \<^verbatim>\<open>cmd.StdoutPipe()\<close> and \<^verbatim>\<open>cmd.Start()\<close> (\<open>None\<close> for nil, otherwise the text of the
  error) and the lines that the scanner reads before the stream ends. The goroutines that
  \<^verbatim>\<open>main\<close> starts, the poller and the interrupt handler, are not part of this function.
\<close>

definition scan_step :: "fmt_env \<Rightarrow> string \<Rightarrow> step" where
  "scan_step env text w =
     (let w1 = w\<lparr>data := process_line text (data w)\<rparr>
      in if HasPrefix text ''***'' then render env w1 else Inr w1)"

fun scan_loop :: "fmt_env \<Rightarrow> string list \<Rightarrow> step" where
  "scan_loop env [] w = Inr w"
| "scan_loop env (text # rest) w =
     (case scan_step env text w of Inl e \<Rightarrow> Inl e | Inr w' \<Rightarrow> scan_loop env rest w')"

definition main :: "fmt_env \<Rightarrow> string option \<Rightarrow> string option \<Rightarrow> string list \<Rightarrow> step" where
  "main env pipe_err start_err lines w0 =
     (let w1 = Print (ESC # ''[?25l'') w0;
          w2 = Print (ESC # ''[H'' @ ESC # ''[2J'') w1
      in case pipe_err of
           Some e \<Rightarrow> Inr (Println (''Error: '' @ e) w2)
         | None \<Rightarrow>
             (case start_err of
                Some e \<Rightarrow> Inr (Println (''Error starting powermetrics (need sudo): '' @ e) w2)
              | None \<Rightarrow> scan_loop env lines w2))"

text \<open>Auxiliary notions of the proofs.\<close>

definition kept :: "go_int \<times> bool \<Rightarrow> go_int \<Rightarrow> go_int" where
  "kept r old = (if snd r then fst r else old)"

definition f64_nonneg :: "f64 \<Rightarrow> bool" where
  "f64_nonneg x = (case x of Fin a \<Rightarrow> 0 \<le> a | PosInf \<Rightarrow> True | NegInf \<Rightarrow> False | NaN \<Rightarrow> False)"

definition frame_step :: "step \<Rightarrow> bool" where
  "frame_step f =
     (\<forall>w. \<exists>w' out. f w = Inr w' \<and> data w' = data w \<and> renders w' = renders w
                   \<and> slept w' = slept w \<and> stdout w' = stdout w @ out)"

text \<open>
  Two classes of suffixes used in the proofs: a suffix that cannot complete a match of
  \<^verbatim>\<open>ansiRe\<close> begun before it, and a suffix that cannot complete a UTF-8 sequence
  begun before it.
\<close>

definition inert :: "string \<Rightarrow> bool" where
  "inert t = (t = [] \<or> (\<not> is_sgr_param (hd t) \<and> hd t \<noteq> CHR ''m'' \<and> hd t \<noteq> CHR ''['' ))"

definition ascii_start :: "string \<Rightarrow> bool" where
  "ascii_start t = (t = [] \<or> (of_char (hd t) :: nat) < 0x80)"

section \<open>Arithmetic of 64-bit integers\<close>

lemma sint_bounds64:
  "- 9223372036854775808 \<le> sint (x::go_int)" "sint (x::go_int) < 9223372036854775808"
  using sint_ge[of x] sint_lt[of x] by simp_all

lemma sint_word_of_int64:
  "- 9223372036854775808 \<le> k \<Longrightarrow> k < 9223372036854775808 \<Longrightarrow> sint (word_of_int k :: go_int) = k"
  by (simp add: sint_sbintrunc' signed_take_bit_int_eq_self)

lemma sint_mul_small:
  fixes p w :: go_int
  assumes "0 \<le> sint p" "sint p \<le> 100" "0 \<le> sint w" "sint w \<le> 92233720368547758"
  shows "sint (p * w) = sint p * sint w"
proof -
  have "sint p * sint w \<le> 100 * 92233720368547758"
    using assms by (intro mult_mono) auto
  moreover have "0 \<le> sint p * sint w" using assms by simp
  ultimately show ?thesis
    by (simp add: sint_word_mult signed_take_bit_int_eq_self)
qed

lemma sint_quo_nonneg:
  fixes a :: go_int
  assumes "0 \<le> sint a"
  shows "sint (quo a 100) = sint a div 100"
proof -
  have "sint a sdiv 100 = sint a div 100"
    using assms by (simp add: signed_divide_int_def sgn_if)
  moreover have "sint a div 100 \<le> sint a" using assms
    by presburger
  moreover have "0 \<le> sint a div 100" using assms by simp
  ultimately show ?thesis
    using sint_bounds64[of a] by (simp add: quo_def sint_word_of_int64)
qed

lemma sint_sub_small:
  fixes a b :: go_int
  assumes "0 \<le> sint b" "sint b \<le> sint a"
  shows "sint (a - b) = sint a - sint b"
  using assms sint_bounds64[of a]
  by (simp add: sint_word_diff signed_take_bit_int_eq_self)

lemma Repeat_ok:
  assumes "0 \<le> count" and "int (length s) * count \<le> maxAlloc"
  shows "Repeat s count = Inr (cells s (nat count))"
proof -
  have "maxAlloc \<le> maxInt" by (simp add: maxAlloc_def maxInt_def)
  with assms have "\<not> maxInt < int (length s) * count" by simp
  moreover have "cells s (nat 0) = []" "cells s (nat 1) = s" "cells [] (nat count) = []"
    by (simp_all add: cells_def)
  ultimately show ?thesis using assms by (simp add: Repeat_def)
qed

lemma clamp_sint:
  fixes pct0 :: go_int
  defines "pct1 \<equiv> (if pct0 <s 0 then 0 else pct0)"
  defines "pct \<equiv> (if 100 <s pct1 then 100 else pct1)"
  shows "sint pct = max 0 (min 100 (sint pct0))"
  unfolding pct_def pct1_def by (auto simp: word_sless_alt)

section \<open>Bars have the requested number of cells\<close>

lemma colorBar_result:
  assumes "0 \<le>s width" and "width \<le>s 93824992236885"
  shows "let p = max 0 (min 100 (sint pct));
             filled = nat (p * sint width div 100);
             empty = nat (sint width) - filled
         in colorBar pct width color =
              Inr (color @ cells full_block filled @ Reset @ Dim @ cells light_shade empty @ Reset)
            \<and> filled + empty = nat (sint width)"
proof -
  define pct1 where "pct1 = (if pct <s 0 then 0 else pct)"
  define pc where "pc = (if 100 <s pct1 then 100 else pct1)"
  define filled where "filled = quo (pc * width) 100"
  define empty0 where "empty0 = width - filled"
  define empty where "empty = (if empty0 <s 0 then 0 else empty0)"
  have w0: "0 \<le> sint width" "sint width \<le> 93824992236885"
    using assms by (simp_all add: word_sle_eq)
  then have w: "0 \<le> sint width" "sint width \<le> 92233720368547758"
    by simp_all
  have p: "sint pc = max 0 (min 100 (sint pct))"
    unfolding pc_def pct1_def by (rule clamp_sint)
  then have p_range: "0 \<le> sint pc" "sint pc \<le> 100" by simp_all
  have mul: "sint (pc * width) = sint pc * sint width"
    using p_range w by (rule sint_mul_small)
  have mul_nonneg: "0 \<le> sint pc * sint width" using p_range w by simp
  have f: "sint filled = sint pc * sint width div 100"
    unfolding filled_def using mul mul_nonneg by (simp add: sint_quo_nonneg)
  have "sint pc * sint width \<le> 100 * sint width"
    using p_range w by (intro mult_right_mono) auto
  then have f_le: "sint filled \<le> sint width" unfolding f by simp
  have f_ge: "0 \<le> sint filled" unfolding f using mul_nonneg by simp
  have e0: "sint empty0 = sint width - sint filled"
    unfolding empty0_def using f_ge f_le by (rule sint_sub_small)
  have e: "sint empty = sint width - sint filled"
    unfolding empty_def using e0 f_le by (simp add: word_sless_alt)
  have r1: "Repeat full_block (sint filled) = Inr (cells full_block (nat (sint filled)))"
    using f_ge f_le w0 by (intro Repeat_ok) (simp_all add: full_block_def maxAlloc_def)
  have r2: "Repeat light_shade (sint empty) = Inr (cells light_shade (nat (sint empty)))"
    using e f_ge f_le w0 by (intro Repeat_ok) (simp_all add: light_shade_def maxAlloc_def)
  have "colorBar pct width color =
     (case Repeat full_block (sint filled) of
        Inl e \<Rightarrow> Inl e
      | Inr f \<Rightarrow>
          (case Repeat light_shade (sint empty) of
             Inl e \<Rightarrow> Inl e
           | Inr g \<Rightarrow> Inr (color @ f @ Reset @ Dim @ g @ Reset)))"
    unfolding colorBar_def Let_def filled_def empty_def empty0_def pc_def pct1_def ..
  then have "colorBar pct width color =
     Inr (color @ cells full_block (nat (sint filled)) @ Reset @ Dim
          @ cells light_shade (nat (sint empty)) @ Reset)"
    by (simp only: r1 r2 sum.case)
  moreover have "nat (sint empty) = nat (sint width) - nat (sint filled)"
    using e f_ge f_le by simp
  moreover have "nat (sint filled) + (nat (sint width) - nat (sint filled)) = nat (sint width)"
    using f_ge f_le by simp
  moreover have "nat (sint filled) = nat (max 0 (min 100 (sint pct)) * sint width div 100)"
    by (simp only: f p)
  ultimately show ?thesis
    by (simp only: Let_def)
qed

text \<open>
  C5, as amended. For every \<open>pct\<close> and every width from 0 to 93824992236885 (the
  largest width whose \<open>3 * width\<close> bytes of glyphs stay within \<open>maxAlloc\<close>, so that
  \<^verbatim>\<open>strings.Repeat\<close> does not panic), \<open>colorBar\<close> returns: \<open>pct\<close> is clamped to
  \<open>[0,100]\<close>, the bar has \<open>clamped * width div 100\<close> filled cells, and the filled and
  the empty cells together are exactly \<open>width\<close> cells.
\<close>

theorem colorBar_cells:
  assumes "0 \<le>s width" and "width \<le>s 93824992236885"
  shows "let p = max 0 (min 100 (sint pct));
             filled = nat (p * sint width div 100);
             empty = nat (sint width) - filled
         in colorBar pct width color =
              Inr (color @ cells full_block filled @ Reset @ Dim @ cells light_shade empty @ Reset)
            \<and> filled + empty = nat (sint width)"
  using assms by (rule colorBar_result)

text \<open>
  Witness: the battery bar of the dashboard at 87 percent, \<open>colorBar 87 44 Yellow\<close>, has
  38 filled and 6 empty cells.
\<close>

theorem colorBar_cells_witness:
  "0 \<le>s (44::go_int) \<and> (44::go_int) \<le>s 93824992236885
   \<and> colorBar 87 44 Yellow =
       Inr (Yellow @ cells full_block 38 @ Reset @ Dim @ cells light_shade 6 @ Reset)
   \<and> (38::nat) + 6 = nat (sint (44::go_int))"
proof -
  have h1: "0 \<le>s (44::go_int)" by (simp add: word_sle_eq)
  have h2: "(44::go_int) \<le>s 93824992236885" by (simp add: word_sle_eq)
  show ?thesis
    using h1 h2 colorBar_cells [OF h1 h2, of 87 Yellow] by (simp add: Let_def)
qed

text \<open>
  C5 as stated fails for a large width: with \<open>pct = 50\<close> and \<open>width = 2^62\<close> the product
  \<open>pct * width\<close> wraps around to \<open>- 2^63\<close>, \<open>filled\<close> is negative, and
  \<^verbatim>\<open>strings.Repeat\<close> panics: no bar is produced. And already at the first width above the
  bound of the amended claim, 93824992236886, a full bar needs more than \<open>2^48\<close> bytes
  and the allocation in \<^verbatim>\<open>strings.Repeat\<close> panics.
\<close>

theorem colorBar_large_width_panics:
  "0 \<le>s (4611686018427387904::go_int)
   \<and> colorBar 50 4611686018427387904 Magenta = Inl NegativeRepeatCount
   \<and> 0 \<le>s (93824992236886::go_int)
   \<and> colorBar 100 93824992236886 Magenta = Inl MakesliceLenOutOfRange"
  by (simp add: colorBar_def quo_def signed_divide_int_def Repeat_def word_sless_alt word_sle_eq
      maxInt_def maxAlloc_def full_block_def)

lemma splitBar_result:
  assumes "sysPct \<le>s 100" and "0 \<le>s width" and "width \<le>s 93824992236885"
  shows "let p = max 0 (sint sysPct);
             sysBars = nat (p * sint width div 100);
             batBars = nat (sint width) - sysBars
         in splitBar sysPct batPct width =
              Inr (Cyan @ cells full_block sysBars @ Reset @ Yellow
                   @ cells full_block batBars @ Reset)
            \<and> sysBars + batBars = nat (sint width)"
proof -
  define sp where "sp = (if sysPct <s 0 then 0 else sysPct)"
  define sysBars0 where "sysBars0 = quo (sp * width) 100"
  define batBars0 where "batBars0 = width - sysBars0"
  define sysBars where "sysBars = (if sysBars0 <s 0 then 0 else sysBars0)"
  define batBars where "batBars = (if batBars0 <s 0 then 0 else batBars0)"
  have w0: "0 \<le> sint width" "sint width \<le> 93824992236885"
    using assms by (simp_all add: word_sle_eq)
  then have w: "0 \<le> sint width" "sint width \<le> 92233720368547758"
    by simp_all
  have p: "sint sp = max 0 (sint sysPct)"
    unfolding sp_def by (auto simp: word_sless_alt)
  have p_range: "0 \<le> sint sp" "sint sp \<le> 100"
    using p assms(1) by (simp_all add: word_sle_eq)
  have mul: "sint (sp * width) = sint sp * sint width"
    using p_range w by (rule sint_mul_small)
  have mul_nonneg: "0 \<le> sint sp * sint width" using p_range w by simp
  have s0: "sint sysBars0 = sint sp * sint width div 100"
    unfolding sysBars0_def using mul mul_nonneg by (simp add: sint_quo_nonneg)
  have "sint sp * sint width \<le> 100 * sint width"
    using p_range w by (intro mult_right_mono) auto
  then have s0_le: "sint sysBars0 \<le> sint width" unfolding s0 by simp
  have s0_ge: "0 \<le> sint sysBars0" unfolding s0 using mul_nonneg by simp
  have s: "sysBars = sysBars0"
    unfolding sysBars_def using s0_ge by (simp add: word_sless_alt)
  have b0: "sint batBars0 = sint width - sint sysBars0"
    unfolding batBars0_def using s0_ge s0_le by (rule sint_sub_small)
  have b: "sint batBars = sint width - sint sysBars0"
    unfolding batBars_def using b0 s0_le by (simp add: word_sless_alt)
  have r1: "Repeat full_block (sint sysBars) = Inr (cells full_block (nat (sint sysBars0)))"
    using s s0_ge s0_le w0 by (simp add: Repeat_ok full_block_def maxAlloc_def)
  have r2: "Repeat full_block (sint batBars) = Inr (cells full_block (nat (sint batBars)))"
    using b s0_ge s0_le w0 by (intro Repeat_ok) (simp_all add: full_block_def maxAlloc_def)
  have "splitBar sysPct batPct width =
     (case Repeat full_block (sint sysBars) of
        Inl e \<Rightarrow> Inl e
      | Inr f \<Rightarrow>
          (case Repeat full_block (sint batBars) of
             Inl e \<Rightarrow> Inl e
           | Inr g \<Rightarrow> Inr (Cyan @ f @ Reset @ Yellow @ g @ Reset)))"
    unfolding splitBar_def Let_def sysBars_def batBars_def batBars0_def sysBars0_def sp_def ..
  then have "splitBar sysPct batPct width =
     Inr (Cyan @ cells full_block (nat (sint sysBars0)) @ Reset @ Yellow
          @ cells full_block (nat (sint batBars)) @ Reset)"
    by (simp only: r1 r2 sum.case)
  moreover have "nat (sint batBars) = nat (sint width) - nat (sint sysBars0)"
    using b s0_ge s0_le by simp
  moreover have "nat (sint sysBars0) + (nat (sint width) - nat (sint sysBars0)) = nat (sint width)"
    using s0_ge s0_le by simp
  moreover have "nat (sint sysBars0) = nat (max 0 (sint sysPct) * sint width div 100)"
    by (simp only: s0 p)
  ultimately show ?thesis
    by (simp only: Let_def)
qed

text \<open>
  C3, as amended. For every \<open>sysPct\<close> up to 100 (negative values count as 0), every
  \<open>batPct\<close> and every width from 0 to 93824992236885 (the largest width whose
  \<open>3 * width\<close> bytes of glyphs stay within \<open>maxAlloc\<close>), \<open>splitBar\<close> returns: the
  system segment has \<open>sysPct * width div 100\<close> cells, the battery segment has the
  remaining \<open>width - sysBars\<close> cells, and the two segments are exactly \<open>width\<close> cells.
\<close>

theorem splitBar_cells:
  assumes "sysPct \<le>s 100" and "0 \<le>s width" and "width \<le>s 93824992236885"
  shows "let p = max 0 (sint sysPct);
             sysBars = nat (p * sint width div 100);
             batBars = nat (sint width) - sysBars
         in splitBar sysPct batPct width =
              Inr (Cyan @ cells full_block sysBars @ Reset @ Yellow
                   @ cells full_block batBars @ Reset)
            \<and> sysBars + batBars = nat (sint width)"
  using assms by (rule splitBar_result)

text \<open>
  Witness: a 37/63 split of the dashboard's 40-cell bar has 14 system and 26 battery cells.
\<close>

theorem splitBar_cells_witness:
  "(37::go_int) \<le>s 100 \<and> 0 \<le>s (40::go_int) \<and> (40::go_int) \<le>s 93824992236885
   \<and> splitBar 37 63 40 =
       Inr (Cyan @ cells full_block 14 @ Reset @ Yellow @ cells full_block 26 @ Reset)
   \<and> (14::nat) + 26 = nat (sint (40::go_int))"
proof -
  have h1: "(37::go_int) \<le>s 100" by (simp add: word_sle_eq)
  have h2: "0 \<le>s (40::go_int)" by (simp add: word_sle_eq)
  have h3: "(40::go_int) \<le>s 93824992236885" by (simp add: word_sle_eq)
  show ?thesis
    using h1 h2 h3 splitBar_cells [OF h1 h2 h3, of 63] by (simp add: Let_def)
qed

text \<open>
  C3 as stated fails: \<open>sysPct\<close> has no upper clamp, so \<open>splitBar 200 0 10\<close> draws 20
  system cells and no battery cell, 20 cells in a bar of width 10; at width \<open>2^62\<close>
  the product \<open>sysPct * width\<close> wraps around and \<^verbatim>\<open>strings.Repeat\<close> panics; and at
  width 93824992236886, the first above the bound of the amended claim, a full system
  segment needs more than \<open>2^48\<close> bytes and the allocation in \<^verbatim>\<open>strings.Repeat\<close>
  panics.
\<close>

theorem splitBar_overlong:
  "splitBar 200 0 10 =
     Inr (Cyan @ cells full_block 20 @ Reset @ Yellow @ cells full_block 0 @ Reset)
   \<and> (20::nat) + 0 \<noteq> nat (sint (10::go_int))
   \<and> splitBar 50 50 4611686018427387904 = Inl RepeatOverflow
   \<and> splitBar 100 0 93824992236886 = Inl MakesliceLenOutOfRange"
  by (simp add: splitBar_def quo_def signed_divide_int_def Repeat_def word_sless_alt
      maxInt_def maxAlloc_def full_block_def cells_def)

section \<open>Visible length and escape sequences\<close>

lemma dropWhile_param_append:
  assumes "inert t"
  shows "dropWhile is_sgr_param (r @ t) = dropWhile is_sgr_param r @ t"
proof (cases "\<forall>x\<in>set r. is_sgr_param x")
  case True
  then have "dropWhile is_sgr_param r = []" by simp
  moreover have "dropWhile is_sgr_param t = t"
    using assms by (cases t) (auto simp: inert_def)
  ultimately show ?thesis using True by (simp add: dropWhile_append2)
next
  case False
  then show ?thesis by (auto simp: dropWhile_append1)
qed

lemma ansi_match_append:
  assumes "inert t" and "s \<noteq> []"
  shows "ansi_match (s @ t) = map_option (\<lambda>r. r @ t) (ansi_match s)"
proof (cases s)
  case Nil
  with assms show ?thesis by simp
next
  case (Cons e s')
  show ?thesis
  proof (cases s')
    case Nil
    with Cons assms(1) show ?thesis
      by (cases t) (auto simp: inert_def)
  next
    case (Cons b r)
    show ?thesis
    proof (cases "dropWhile is_sgr_param r")
      case Nil
      with \<open>s = e # s'\<close> Cons assms(1) show ?thesis
        by (cases t) (auto simp: dropWhile_param_append inert_def simp del: dropWhile_eq_Nil_conv)
    next
      case (Cons m rest)
      with \<open>s = e # s'\<close> \<open>s' = b # r\<close> assms(1) show ?thesis
        by (simp add: dropWhile_param_append)
    qed
  qed
qed

lemma strip_ansi_append:
  "inert t \<Longrightarrow> strip_ansi (s @ t) = strip_ansi s @ strip_ansi t"
proof (induction s rule: strip_ansi.induct)
  case 1
  then show ?case by simp
next
  case (2 c cs)
  have m: "ansi_match (c # cs @ t) = map_option (\<lambda>r. r @ t) (ansi_match (c # cs))"
    using ansi_match_append[OF "2.prems", of "c # cs"] by simp
  show ?case
  proof (cases "ansi_match (c # cs)")
    case None
    with m 2 show ?thesis by simp
  next
    case (Some rest)
    with m 2 show ?thesis by simp
  qed
qed

lemma strip_ansi_no_esc: "ESC \<notin> set s \<Longrightarrow> strip_ansi s = s"
proof (induction s)
  case Nil
  then show ?case by simp
next
  case (Cons c cs)
  then have "ansi_match (c # cs) = None" by (cases cs) auto
  with Cons show ?case by simp
qed

lemma ansi_match_iff:
  "ansi_match s = Some rest \<longleftrightarrow>
     (\<exists>ps. s = ESC # CHR ''['' # ps @ CHR ''m'' # rest \<and> list_all is_sgr_param ps)"
proof
  assume a: "ansi_match s = Some rest"
  then obtain r where s: "s = ESC # CHR ''['' # r"
    and d: "dropWhile is_sgr_param r = CHR ''m'' # rest"
    by (cases s rule: ansi_match.cases) (auto split: if_splits list.splits)
  have "r = takeWhile is_sgr_param r @ dropWhile is_sgr_param r" by simp
  with d have "r = takeWhile is_sgr_param r @ CHR ''m'' # rest" by simp
  moreover have "list_all is_sgr_param (takeWhile is_sgr_param r)"
    by (simp add: list_all_iff) (meson set_takeWhileD)
  ultimately show "\<exists>ps. s = ESC # CHR ''['' # ps @ CHR ''m'' # rest \<and> list_all is_sgr_param ps"
    using s by blast
next
  assume "\<exists>ps. s = ESC # CHR ''['' # ps @ CHR ''m'' # rest \<and> list_all is_sgr_param ps"
  then obtain ps where s: "s = ESC # CHR ''['' # ps @ CHR ''m'' # rest"
    and ps: "list_all is_sgr_param ps" by blast
  have "\<not> is_sgr_param (CHR ''m'')" by (simp add: is_sgr_param_def is_digit_def byte_in_def)
  with ps have "dropWhile is_sgr_param (ps @ CHR ''m'' # rest) = CHR ''m'' # rest"
    by (simp add: list_all_iff dropWhile_append2)
  with s show "ansi_match s = Some rest" by simp
qed

lemma strip_ansi_no_sgr:
  assumes "\<nexists>pre ps post. s = pre @ ESC # CHR ''['' # ps @ CHR ''m'' # post \<and> list_all is_sgr_param ps"
  shows "strip_ansi s = s"
  using assms
proof (induction s)
  case Nil
  then show ?case by simp
next
  case (Cons c cs)
  have "ansi_match (c # cs) = None"
  proof (rule ccontr)
    assume "ansi_match (c # cs) \<noteq> None"
    then obtain rest where "ansi_match (c # cs) = Some rest" by auto
    then obtain ps where "c # cs = [] @ ESC # CHR ''['' # ps @ CHR ''m'' # rest" "list_all is_sgr_param ps"
      unfolding ansi_match_iff by auto
    with Cons.prems show False by blast
  qed
  moreover have "\<nexists>pre ps post. cs = pre @ ESC # CHR ''['' # ps @ CHR ''m'' # post \<and> list_all is_sgr_param ps"
  proof
    assume "\<exists>pre ps post. cs = pre @ ESC # CHR ''['' # ps @ CHR ''m'' # post \<and> list_all is_sgr_param ps"
    then obtain pre ps post where "cs = pre @ ESC # CHR ''['' # ps @ CHR ''m'' # post" "list_all is_sgr_param ps"
      by blast
    then have "c # cs = (c # pre) @ ESC # CHR ''['' # ps @ CHR ''m'' # post \<and> list_all is_sgr_param ps"
      by simp
    with Cons.prems show False by blast
  qed
  ultimately show ?case using Cons.IH by simp
qed

lemma strip_color:
  "c \<in> set colors \<Longrightarrow> strip_ansi (c @ s) = strip_ansi s"
  by (auto simp: colors_def Reset_def Red_def Green_def Yellow_def Blue_def Magenta_def
      Cyan_def White_def Dim_def is_sgr_param_def is_digit_def byte_in_def)

lemma inert_Reset: "inert Reset"
  by (simp add: inert_def Reset_def ESC_def is_sgr_param_def is_digit_def byte_in_def)

lemma strip_Reset: "strip_ansi Reset = []"
  using strip_color[of Reset "[]"] by (simp add: colors_def)


lemma rune_size_bounds: "cs \<noteq> [] \<Longrightarrow> 1 \<le> rune_size cs \<and> rune_size cs \<le> length cs"
  by (cases cs) (auto simp: Let_def split: list.splits)

lemma rune_size_append:
  assumes "ascii_start t" and "cs \<noteq> []"
  shows "rune_size (cs @ t) = rune_size cs"
proof -
  have nb: "\<not> byte_in lo hi (hd t)" if "0x80 \<le> lo" "t \<noteq> []" for lo hi
    using assms(1) that by (auto simp: ascii_start_def byte_in_def)
  have lo: "0x80 \<le> second_lo b" for b by (simp add: second_lo_def)
  obtain c r where cs: "cs = c # r" using assms(2) by (cases cs) auto
  show ?thesis
  proof (cases t)
    case Nil
    then show ?thesis by simp
  next
    case (Cons x xs)
    then have x: "\<not> byte_in 0x80 0xBF x" "\<And>b. \<not> byte_in (second_lo b) (second_hi b) x"
      using nb[of "0x80" "0xBF"] nb[OF lo] by simp_all
    show ?thesis
      unfolding cs Cons using x
      by (simp add: Let_def split: list.splits)
  qed
qed

lemma rune_count_append:
  "ascii_start t \<Longrightarrow> rune_count (a @ t) = rune_count a + rune_count t"
proof (induction a rule: rune_count.induct)
  case 1
  then show ?case by simp
next
  case (2 c cs)
  have sz: "rune_size ((c # cs) @ t) = rune_size (c # cs)"
    using "2.prems" by (rule rune_size_append) simp
  have "rune_size (c # cs) - 1 \<le> length cs"
    using rune_size_bounds[of "c # cs"] by (simp del: rune_size.simps) linarith
  then have "drop (rune_size (c # cs) - 1) (cs @ t) = drop (rune_size (c # cs) - 1) cs @ t"
    by (simp del: rune_size.simps)
  with sz 2 show ?case by (simp del: rune_size.simps)
qed

lemma rune_count_spaces: "rune_count (cells '' '' n @ t) = n + rune_count t"
  by (induction n) (simp_all add: cells_def)

lemma ascii_start_space: "ascii_start (CHR '' '' # t)"
  by (simp add: ascii_start_def)

lemma ascii_start_cells: "ascii_start (cells '' '' n @ CHR '' '' # t)"
  by (cases n) (simp_all add: ascii_start_def cells_def)

lemma inert_cells: "inert (cells '' '' n @ CHR '' '' # t)"
  by (cases n) (simp_all add: inert_def cells_def is_sgr_param_def is_digit_def byte_in_def)

lemma strip_tail: "strip_ansi (cells '' '' n @ '' '' @ box_vertical) = cells '' '' n @ '' '' @ box_vertical"
  by (rule strip_ansi_no_esc) (auto simp: cells_def box_vertical_def ESC_def)

lemma rune_count_tail: "rune_count ('' '' @ box_vertical) = 2"
  by (simp add: box_vertical_def Let_def byte_in_def second_lo_def second_hi_def)

lemma visibleLen_interior:
  "visibleLen (content @ cells '' '' n) = visibleLen content + int n"
proof -
  have "inert (cells '' '' n)" "ascii_start (cells '' '' n)"
    by (cases n; simp add: inert_def ascii_start_def cells_def is_sgr_param_def is_digit_def byte_in_def)+
  moreover have "strip_ansi (cells '' '' n) = cells '' '' n"
    by (rule strip_ansi_no_esc) (auto simp: cells_def ESC_def)
  moreover have "rune_count (cells '' '' n) = n"
    using rune_count_spaces[of n "[]"] by simp
  ultimately show ?thesis
    by (simp add: visibleLen_def strip_ansi_append rune_count_append)
qed

lemma strip_ansi_not_esc: "c \<noteq> ESC \<Longrightarrow> strip_ansi (c # s) = c # strip_ansi s"
  by (cases s) simp_all

lemma visibleLen_row:
  "visibleLen (box_vertical @ '' '' @ content @ cells '' '' n @ '' '' @ box_vertical)
   = visibleLen content + int n + 4"
proof -
  let ?tail = "cells '' '' n @ '' '' @ box_vertical"
  have "strip_ansi (box_vertical @ '' '' @ content @ ?tail)
        = box_vertical @ '' '' @ strip_ansi (content @ ?tail)"
    by (simp add: box_vertical_def strip_ansi_not_esc ESC_def del: strip_ansi.simps)
  also have "strip_ansi (content @ ?tail) = strip_ansi content @ ?tail"
    using inert_cells[of n box_vertical] strip_tail[of n] by (simp add: strip_ansi_append)
  finally have s: "strip_ansi (box_vertical @ '' '' @ content @ ?tail)
        = box_vertical @ '' '' @ strip_ansi content @ ?tail" .
  have "rune_count (box_vertical @ '' '' @ strip_ansi content @ ?tail)
        = 2 + rune_count (strip_ansi content @ ?tail)"
    by (simp add: box_vertical_def Let_def byte_in_def second_lo_def second_hi_def)
  also have "rune_count (strip_ansi content @ ?tail) = rune_count (strip_ansi content) + rune_count ?tail"
    using ascii_start_cells[of n box_vertical] by (simp add: rune_count_append)
  also have "rune_count ?tail = n + 2"
    using rune_count_spaces[of n "'' '' @ box_vertical"] rune_count_tail by simp
  finally show ?thesis unfolding visibleLen_def s by simp
qed

lemma line_eq:
  "line content = Inr (box_vertical @ '' '' @ content @ cells '' '' (nat (52 - visibleLen content))
                       @ '' '' @ box_vertical)"
proof -
  have "0 \<le> visibleLen content" by (simp add: visibleLen_def)
  then show ?thesis
    by (auto simp: line_def Let_def Repeat_ok maxAlloc_def)
qed

lemma visibleLen_plain: "visibleLen (replicate n (CHR ''a'')) = int n"
proof -
  have "strip_ansi (replicate n (CHR ''a'')) = replicate n (CHR ''a'')"
    by (rule strip_ansi_no_esc) (simp add: ESC_def)
  moreover have "rune_count (replicate n (CHR ''a'')) = n"
    by (induction n) simp_all
  ultimately show ?thesis by (simp add: visibleLen_def)
qed

text \<open>
  C4, as amended. For every content string, \<open>line\<close> returns the row made of the left
  border, the content followed by \<open>52 - visible\<close> spaces (none when the content is wider),
  and the right border. The interior of the row, content and padding, has visible length
  \<open>max 52 visible\<close>: exactly the interior width 52 when the content is at most 52 cells
  wide, and the content's own width otherwise, since \<open>line\<close> does not truncate. The whole
  row is four cells wider than its interior (a border glyph and a space on each side).
\<close>

theorem line_visible_width:
  "let v = visibleLen content;
       interior = content @ cells '' '' (nat (52 - v));
       row = box_vertical @ '' '' @ interior @ '' '' @ box_vertical
   in line content = Inr row
      \<and> visibleLen interior = max 52 v
      \<and> visibleLen row = max 52 v + 4"
  using line_eq[of content] visibleLen_interior[of content "nat (52 - visibleLen content)"]
    visibleLen_row[of content "nat (52 - visibleLen content)"]
  by (simp add: Let_def max_def)

text \<open>
  C4 as stated fails for content wider than the interior: for 53 letters the row is the
  content between the borders, without padding and without truncation; its interior is 53
  cells wide and the row 57, not 52 and 56.
\<close>

theorem line_long_content_not_truncated:
  "visibleLen (replicate 53 (CHR ''a'')) = 53
   \<and> line (replicate 53 (CHR ''a''))
       = Inr (box_vertical @ '' '' @ replicate 53 (CHR ''a'') @ '' '' @ box_vertical)
   \<and> visibleLen (box_vertical @ '' '' @ replicate 53 (CHR ''a'') @ '' '' @ box_vertical) = 57"
  using line_eq[of "replicate 53 (CHR ''a'')"] visibleLen_row[of "replicate 53 (CHR ''a'')" 0]
  by (simp add: visibleLen_plain cells_def)

text \<open>
  C10. Prefixing any of the program's color constants, or appending \<open>Reset\<close>, leaves the
  visible length unchanged. A string in which \<^verbatim>\<open>ESC [\<close>, a run of digits and semicolons,
  and \<^verbatim>\<open>m\<close> never occur in a row has its rune count as visible length. Escape sequences
  that do not end in \<^verbatim>\<open>m\<close>, such as the cursor-home and hide-cursor sequences the
  program prints, are counted rune by rune.
\<close>

theorem visibleLen_sgr:
  "(\<forall>c\<in>set colors. visibleLen (c @ s) = visibleLen s)
   \<and> visibleLen (s @ Reset) = visibleLen s
   \<and> ((\<nexists>pre ps post. s = pre @ ESC # CHR ''['' # ps @ CHR ''m'' # post
                        \<and> list_all is_sgr_param ps)
        \<longrightarrow> visibleLen s = int (rune_count s))
   \<and> visibleLen (ESC # ''[H'') = 3
   \<and> visibleLen (ESC # ''[?25l'') = 6"
proof -
  have "\<forall>c\<in>set colors. visibleLen (c @ s) = visibleLen s"
    by (simp add: visibleLen_def strip_color)
  moreover have "visibleLen (s @ Reset) = visibleLen s"
    by (simp add: visibleLen_def strip_ansi_append inert_Reset strip_Reset)
  moreover have "visibleLen s = int (rune_count s)"
    if "\<nexists>pre ps post. s = pre @ ESC # CHR ''['' # ps @ CHR ''m'' # post
                        \<and> list_all is_sgr_param ps"
    using strip_ansi_no_sgr[OF that] by (simp add: visibleLen_def)
  moreover have "visibleLen (ESC # ''[H'') = 3 \<and> visibleLen (ESC # ''[?25l'') = 6"
    by (simp add: visibleLen_def ESC_def is_sgr_param_def is_digit_def byte_in_def)
  ultimately show ?thesis by blast
qed

text \<open>
  Witness: the text \<^verbatim>\<open>1.50 W\<close> holds no escape sequence; it is six cells wide, with or
  without \<open>Magenta\<close> in front and \<open>Reset\<close> behind.
\<close>

theorem visibleLen_sgr_witness:
  "Magenta \<in> set colors
   \<and> visibleLen (Magenta @ ''1.50 W'') = 6
   \<and> visibleLen (''1.50 W'' @ Reset) = 6
   \<and> (\<nexists>pre ps post. ''1.50 W'' = pre @ ESC # CHR ''['' # ps @ CHR ''m'' # post
                        \<and> list_all is_sgr_param ps)
   \<and> visibleLen ''1.50 W'' = 6
   \<and> int (rune_count ''1.50 W'') = 6"
proof -
  have c: "Magenta \<in> set colors" by (simp add: colors_def)
  have n: "\<nexists>pre ps post. ''1.50 W'' = pre @ ESC # CHR ''['' # ps @ CHR ''m'' # post
                        \<and> list_all is_sgr_param ps"
  proof
    assume "\<exists>pre ps post. ''1.50 W'' = pre @ ESC # CHR ''['' # ps @ CHR ''m'' # post
                        \<and> list_all is_sgr_param ps"
    then obtain pre ps post
      where "''1.50 W'' = pre @ ESC # CHR ''['' # ps @ CHR ''m'' # post" by blast
    then have "set ''1.50 W'' = set (pre @ ESC # CHR ''['' # ps @ CHR ''m'' # post)"
      by (rule arg_cong)
    then have "ESC \<in> set ''1.50 W''" by simp
    then show False by (simp add: ESC_def)
  qed
  have r: "int (rune_count ''1.50 W'') = 6" by simp
  show ?thesis
    using c n r visibleLen_sgr [of "''1.50 W''"] by simp
qed

section \<open>Extraction\<close>

lemma ioreg_update_eq:
  "ioreg_update s d =
     d\<lparr>ChargerWatts := kept (extractInt s pat_watts 0 500) (ChargerWatts d),
       ChargerVoltage := kept (extractInt s pat_adapterV 0 50000) (ChargerVoltage d),
       ChargerCurrent := kept (extractInt s pat_adapterA 0 10000) (ChargerCurrent d),
       BatteryVoltage := kept (extractInt s pat_batteryV 5000 25000) (BatteryVoltage d),
       BatteryAmps := kept (extractInt s pat_batteryA (- 15000) 15000) (BatteryAmps d),
       Temperature := kept (extractInt s pat_temp 0 10000) (Temperature d),
       IsCharging := (if 1 < length (pat_charging s) then pat_charging s ! 1 = ''Yes''
                      else IsCharging d),
       OnAC := (if 1 < length (pat_external s) then pat_external s ! 1 = ''Yes''
                else OnAC d)\<rparr>"
  unfolding ioreg_update_def Let_def kept_def
  by (simp add: split_beta)

lemma extractInt_eq:
  "extractInt s re mn mx =
     (if 1 < length (re s) \<and> snd (Atoi (re s ! 1))
         \<and> mn \<le>s fst (Atoi (re s ! 1)) \<and> fst (Atoi (re s ! 1)) \<le>s mx
      then (fst (Atoi (re s ! 1)), True) else (0, False))"
  by (simp add: extractInt_def Let_def split_beta)

lemma kept_range:
  "kept (extractInt s re mn mx) old = old
   \<or> (mn \<le>s kept (extractInt s re mn mx) old \<and> kept (extractInt s re mn mx) old \<le>s mx)"
  by (simp add: kept_def extractInt_eq)

lemma amps_sample: "extractInt ''  \"Amperage\" = -999999'' pat_batteryA (- 15000) 15000 = (0, False)"
  by (simp add: extractInt_eq pat_batteryA_def lit_signed_def is_digit_def byte_in_def Atoi_def
      dec_value_def digit_val_def Let_def maxInt_def minInt_def word_sle_eq)

lemma process_line_eq:
  "process_line t d =
     d\<lparr>CPUPower := (if cpuPowerRe t \<noteq> [] then fst (ParseFloat (cpuPowerRe t ! 1))
                    else CPUPower d),
       GPUPower := (if gpuPowerRe t \<noteq> [] then fst (ParseFloat (gpuPowerRe t ! 1))
                    else GPUPower d),
       ANEPower := (if anePowerRe t \<noteq> [] then fst (ParseFloat (anePowerRe t ! 1))
                    else ANEPower d),
       PackagePower := (if packageRe t \<noteq> [] then fst (ParseFloat (packageRe t ! 1))
                        else PackagePower d),
       BatteryPct := (if batteryPctRe t \<noteq> [] then fst (Atoi (batteryPctRe t ! 1))
                      else BatteryPct d)\<rparr>"
  unfolding process_line_def Let_def by simp

lemma leftmost_length:
  assumes "\<And>u m. anchored u = Some m \<Longrightarrow> length m = 2"
  shows "leftmost anchored s = [] \<or> length (leftmost anchored s) = 2"
  using assms by (induction s) (auto split: option.splits)

lemma lit_milliwatts_length: "lit_milliwatts lit u = Some m \<Longrightarrow> length m = 2"
  by (auto simp: lit_milliwatts_def Let_def split: option.splits if_splits)

lemma lit_space_digits_length: "lit_space_digits lit u = Some m \<Longrightarrow> length m = 2"
  by (auto simp: lit_space_digits_def Let_def split: option.splits if_splits)

lemma fast_patterns_groups:
  "cpuPowerRe s = [] \<or> length (cpuPowerRe s) = 2"
  "gpuPowerRe s = [] \<or> length (gpuPowerRe s) = 2"
  "anePowerRe s = [] \<or> length (anePowerRe s) = 2"
  "packageRe s = [] \<or> length (packageRe s) = 2"
  "batteryPctRe s = [] \<or> length (batteryPctRe s) = 2"
  unfolding cpuPowerRe_def gpuPowerRe_def anePowerRe_def packageRe_def batteryPctRe_def
  by (rule leftmost_length, erule lit_milliwatts_length lit_space_digits_length)+

lemma cpu_sample: "cpuPowerRe ''CPU Power: 1500.0 mW'' = [''CPU Power: 1500.0 mW'', ''1500.0'']"
  by code_simp

lemma parse_sample: "ParseFloat ''1500.0'' = (Fin 1500, True)"
  by code_simp

lemma scale_sample: "f64_div (Fin 1500) (Fin 1000) = Fin (3 / 2)"
  by code_simp

lemma to_int_sample: "f64_to_int (f64_mul (Fin (3 / 2)) (Fin 10)) = 15"
  by code_simp

lemma pct_sample: "batteryPctRe ''percent_charge: 87'' = [''percent_charge: 87'', ''87'']"
  by code_simp

lemma atoi_sample: "Atoi ''87'' = (87, True)"
  by code_simp

lemma pct_150: "batteryPctRe ''percent_charge: 150'' = [''percent_charge: 150'', ''150'']"
  by code_simp

lemma atoi_150: "Atoi ''150'' = (150, True)"
  by code_simp

lemma cpu_123: "cpuPowerRe ''CPU Power: 1.2.3 mW'' = [''CPU Power: 1.2.3 mW'', ''1.2.3'']"
  by code_simp

lemma parse_123: "ParseFloat ''1.2.3'' = (Fin 0, False)"
  by code_simp

section \<open>The fast producer stores no negative value\<close>

lemma digit_val_nonneg:
  assumes "is_digit c"
  shows "0 \<le> digit_val c"
proof -
  have "(of_char c :: int) = int (of_char c)" by (simp add: of_nat_of_char)
  moreover have "48 \<le> (of_char c :: nat)"
    using assms by (simp add: is_digit_def byte_in_def)
  ultimately show ?thesis by (simp add: digit_val_def)
qed

lemma foldl_digits_nonneg:
  "list_all is_digit ds \<Longrightarrow> 0 \<le> n \<Longrightarrow> 0 \<le> foldl (\<lambda>n c. 10 * n + digit_val c) n ds"
proof (induction ds arbitrary: n)
  case Nil
  then show ?case by simp
next
  case (Cons c ds)
  then have "0 \<le> 10 * n + digit_val c" using digit_val_nonneg[of c] by simp
  with Cons show ?case by simp
qed

lemma dec_value_nonneg: "list_all is_digit ds \<Longrightarrow> 0 \<le> dec_value ds"
  unfolding dec_value_def by (rule foldl_digits_nonneg) simp_all

lemma pow2_pos: "0 < pow2 e"
  by (simp add: pow2_def)

lemma round_half_even_nonneg: "0 \<le> x \<Longrightarrow> 0 \<le> round_half_even x"
  by (simp add: round_half_even_def Let_def)

lemma round64_nonneg:
  assumes "0 \<le> q"
  shows "f64_nonneg (round64 q)"
proof (cases "q = 0")
  case True
  then show ?thesis by (simp add: round64_def f64_nonneg_def)
next
  case False
  with assms have q: "0 < q" by simp
  define u where "u = pow2 (max (- 1022) (ilog2 \<bar>q\<bar>) - 52)"
  have u: "0 < u" unfolding u_def by (rule pow2_pos)
  with q have "0 \<le> \<bar>q\<bar> / u" by simp
  then have "0 \<le> round_half_even (\<bar>q\<bar> / u)" by (rule round_half_even_nonneg)
  with u have "0 \<le> of_int (round_half_even (\<bar>q\<bar> / u)) * u" by simp
  with q show ?thesis
    by (simp add: round64_def Let_def f64_nonneg_def u_def)
qed

lemma ParseFloat_nonneg: "f64_nonneg (fst (ParseFloat s))"
proof (cases "decimal_syntax s")
  case False
  then show ?thesis by (simp add: ParseFloat_def f64_nonneg_def)
next
  case True
  define ip where "ip = takeWhile is_digit s"
  define fp where "fp = drop 1 (dropWhile is_digit s)"
  have "list_all is_digit ip"
    unfolding ip_def by (simp add: list_all_iff) (meson set_takeWhileD)
  moreover have "list_all is_digit fp"
    using True unfolding fp_def decimal_syntax_def Let_def
    by (cases "dropWhile is_digit s") (simp_all add: drop_Suc del: dropWhile_eq_Nil_conv)
  ultimately have "0 \<le> dec_value (ip @ fp)"
    by (intro dec_value_nonneg) simp
  then have "0 \<le> decimal_value s"
    by (simp add: decimal_value_def Let_def ip_def fp_def)
  then have "f64_nonneg (round64 (decimal_value s))" by (rule round64_nonneg)
  with True show ?thesis by (simp add: ParseFloat_def Let_def)
qed

lemma Atoi_nonneg:
  assumes "s = [] \<or> hd s \<noteq> CHR ''-''"
  shows "0 \<le>s fst (Atoi s)"
proof -
  define ds where "ds = (if s \<noteq> [] \<and> hd s = CHR ''+'' then tl s else s)"
  show ?thesis
  proof (cases "ds = [] \<or> \<not> list_all is_digit ds")
    case True
    with assms show ?thesis by (auto simp: Atoi_def Let_def ds_def word_sle_eq)
  next
    case False
    then have v: "0 \<le> dec_value ds" by (intro dec_value_nonneg) simp
    have "sint (word_of_int (dec_value ds) :: go_int) = dec_value ds"
      if "dec_value ds \<le> maxInt"
      using v that by (intro sint_word_of_int64) (simp_all add: maxInt_def)
    moreover have "sint (word_of_int maxInt :: go_int) = maxInt"
      by (simp add: maxInt_def)
    ultimately show ?thesis
      using assms False v
      by (auto simp: Atoi_def Let_def ds_def word_sle_eq maxInt_def minInt_def)
  qed
qed

lemma leftmost_capture:
  assumes "\<And>u m. anchored u = Some m \<Longrightarrow> P m"
  shows "leftmost anchored s = [] \<or> P (leftmost anchored s)"
  using assms by (induction s) (auto split: option.splits)

lemma lit_space_digits_capture:
  assumes "lit_space_digits lit u = Some m"
  shows "m ! 1 \<noteq> [] \<and> hd (m ! 1) \<noteq> CHR ''-''"
proof -
  from assms obtain r where m: "m ! 1 = takeWhile is_digit r" and ne: "takeWhile is_digit r \<noteq> []"
    by (auto simp: lit_space_digits_def Let_def split: option.splits if_splits)
  from ne have "hd (takeWhile is_digit r) \<in> set (takeWhile is_digit r)" by simp
  then have "is_digit (hd (takeWhile is_digit r))" by (meson set_takeWhileD)
  then have "hd (takeWhile is_digit r) \<noteq> CHR ''-''"
    by (auto simp: is_digit_def byte_in_def)
  with m ne show ?thesis by simp
qed

lemma batteryPct_capture:
  "batteryPctRe t = [] \<or> hd (batteryPctRe t ! 1) \<noteq> CHR ''-''"
  unfolding batteryPctRe_def
  using leftmost_capture[of "lit_space_digits ''percent_charge:''"
      "\<lambda>m. m ! 1 \<noteq> [] \<and> hd (m ! 1) \<noteq> CHR ''-''" t]
    lit_space_digits_capture by blast

lemma fast_fields:
  "CPUPower (process_line t d) =
      (if cpuPowerRe t \<noteq> [] then fst (ParseFloat (cpuPowerRe t ! 1)) else CPUPower d)"
  "GPUPower (process_line t d) =
      (if gpuPowerRe t \<noteq> [] then fst (ParseFloat (gpuPowerRe t ! 1)) else GPUPower d)"
  "ANEPower (process_line t d) =
      (if anePowerRe t \<noteq> [] then fst (ParseFloat (anePowerRe t ! 1)) else ANEPower d)"
  "PackagePower (process_line t d) =
      (if packageRe t \<noteq> [] then fst (ParseFloat (packageRe t ! 1)) else PackagePower d)"
  "BatteryPct (process_line t d) =
      (if batteryPctRe t \<noteq> [] then fst (Atoi (batteryPctRe t ! 1)) else BatteryPct d)"
  by (simp_all add: process_line_eq)

lemma fast_never_negative:
  "CPUPower (process_line t d) = CPUPower d \<or> f64_nonneg (CPUPower (process_line t d))"
  "GPUPower (process_line t d) = GPUPower d \<or> f64_nonneg (GPUPower (process_line t d))"
  "ANEPower (process_line t d) = ANEPower d \<or> f64_nonneg (ANEPower (process_line t d))"
  "PackagePower (process_line t d) = PackagePower d
     \<or> f64_nonneg (PackagePower (process_line t d))"
  "BatteryPct (process_line t d) = BatteryPct d \<or> 0 \<le>s BatteryPct (process_line t d)"
proof -
  show "BatteryPct (process_line t d) = BatteryPct d \<or> 0 \<le>s BatteryPct (process_line t d)"
    using batteryPct_capture[of t] Atoi_nonneg[of "batteryPctRe t ! 1"]
    by (auto simp: fast_fields)
qed (simp_all add: fast_fields ParseFloat_nonneg)

section \<open>The renderer changes only the terminal\<close>

lemma frame_say: "frame_step (say s)"
  by (simp add: frame_step_def say_def Print_def)

lemma frame_sayln: "frame_step (sayln s)"
  by (simp add: frame_step_def sayln_def Println_def)

lemma frame_println_line: "frame_step (println_line content)"
  by (simp add: frame_step_def println_line_def line_eq Println_def)

lemma frame_with_bar:
  assumes "bar = Inr b" and "\<And>b. frame_step (k b)"
  shows "frame_step (with_bar bar k)"
  using assms by (simp add: frame_step_def with_bar_def)

lemma frame_steps: "list_all frame_step fs \<Longrightarrow> frame_step (steps fs)"
proof (induction fs)
  case Nil
  then show ?case by (simp add: frame_step_def)
next
  case (Cons f fs)
  then have f: "frame_step f" and fs: "frame_step (steps fs)" by simp_all
  show ?case
    unfolding frame_step_def
  proof
    fix w
    from f obtain w1 out1 where 1: "f w = Inr w1" "data w1 = data w" "renders w1 = renders w"
      "slept w1 = slept w" "stdout w1 = stdout w @ out1"
      unfolding frame_step_def by blast
    from fs obtain w2 out2 where 2: "steps fs w1 = Inr w2" "data w2 = data w1"
      "renders w2 = renders w1" "slept w2 = slept w1" "stdout w2 = stdout w1 @ out2"
      unfolding frame_step_def by blast
    from 1 2 have "steps (f # fs) w = Inr w2 \<and> data w2 = data w \<and> renders w2 = renders w
        \<and> slept w2 = slept w \<and> stdout w2 = stdout w @ (out1 @ out2)"
      by simp
    then show "\<exists>w' out. steps (f # fs) w = Inr w' \<and> data w' = data w \<and> renders w' = renders w
        \<and> slept w' = slept w \<and> stdout w' = stdout w @ out"
      by blast
  qed
qed

lemma colorBar_20: "\<exists>b. colorBar pct 20 color = Inr b"
proof -
  have "0 \<le>s (20::go_int)" "(20::go_int) \<le>s 93824992236885" by (simp_all add: word_sle_eq)
  from colorBar_result[OF this, of pct color] show ?thesis by (simp add: Let_def)
qed

lemma colorBar_44: "\<exists>b. colorBar pct 44 color = Inr b"
proof -
  have "0 \<le>s (44::go_int)" "(44::go_int) \<le>s 93824992236885" by (simp_all add: word_sle_eq)
  from colorBar_result[OF this, of pct color] show ?thesis by (simp add: Let_def)
qed

lemma batteryPct_range: "0 \<le> sint (batteryPct d) \<and> sint (batteryPct d) \<le> 100"
  unfolding batteryPct_def Let_def by (simp add: clamp_sint)

lemma systemPct_le: "systemPct d \<le>s 100"
proof -
  have "sint (100 - batteryPct d) = sint (100::go_int) - sint (batteryPct d)"
    using batteryPct_range[of d] by (intro sint_sub_small) simp_all
  then show ?thesis
    using batteryPct_range[of d] by (simp add: systemPct_def word_sle_eq)
qed

lemma splitBar_40: "\<exists>b. splitBar (systemPct d) (batteryPct d) 40 = Inr b"
proof -
  have "0 \<le>s (40::go_int)" "(40::go_int) \<le>s 93824992236885" by (simp_all add: word_sle_eq)
  from splitBar_result[OF systemPct_le this, of d "batteryPct d"] show ?thesis
    by (simp add: Let_def)
qed

lemma frame_colorBar_20: "(\<And>b. frame_step (k b)) \<Longrightarrow> frame_step (with_bar (colorBar pct 20 color) k)"
  using colorBar_20[of pct color] by (auto intro: frame_with_bar)

lemma frame_colorBar_44: "(\<And>b. frame_step (k b)) \<Longrightarrow> frame_step (with_bar (colorBar pct 44 color) k)"
  using colorBar_44[of pct color] by (auto intro: frame_with_bar)

lemma frame_splitBar_40:
  "(\<And>b. frame_step (k b)) \<Longrightarrow> frame_step (with_bar (splitBar (systemPct d) (batteryPct d) 40) k)"
  using splitBar_40[of d] by (auto intro: frame_with_bar)

lemma render_frame:
  "\<exists>w' out. render env w = Inr w' \<and> data w' = data w \<and> renders w' = renders w + 1
     \<and> slept w' = slept w \<and> stdout w' = stdout w @ out"
proof -
  let ?w = "w\<lparr>renders := renders w + 1\<rparr>"
  have "\<exists>fs. render env w = steps fs ?w \<and> list_all frame_step fs"
    unfolding render_def Let_def
    by (rule exI, rule conjI, rule refl) (simp add: frame_say frame_sayln frame_println_line frame_colorBar_20
      frame_colorBar_44 frame_splitBar_40)
  then obtain fs where r: "render env w = steps fs ?w" and fs: "list_all frame_step fs"
    by blast
  from frame_steps[OF fs] obtain w' out where "steps fs ?w = Inr w'" "data w' = data ?w"
    "renders w' = renders ?w" "slept w' = slept ?w" "stdout w' = stdout ?w @ out"
    unfolding frame_step_def by blast
  with r show ?thesis by simp
qed

section \<open>The contract of the bounded extractor\<close>

text \<open>
  C2. For every text, pattern and range, \<open>extractInt\<close> returns the parsed value and true
  exactly when the pattern matches with a capture group, the group parses as an
  \<^verbatim>\<open>int\<close>, and the value lies in \<open>[mn, mx]\<close>; in every other case it returns 0 and
  false. A dump whose first \<^verbatim>\<open>"Amperage" = \<close> reading is \<open>-999999\<close> leaves \<open>BatteryAmps\<close>
  as it was, as does the dump that consists of that reading.
\<close>

theorem extractInt_contract:
  "extractInt s re mn mx =
     (if 1 < length (re s) \<and> snd (Atoi (re s ! 1))
         \<and> mn \<le>s fst (Atoi (re s ! 1)) \<and> fst (Atoi (re s ! 1)) \<le>s mx
      then (fst (Atoi (re s ! 1)), True) else (0, False))
   \<and> (1 < length (pat_batteryA s) \<and> pat_batteryA s ! 1 = ''-999999''
        \<longrightarrow> BatteryAmps (ioreg_update s d) = BatteryAmps d)
   \<and> BatteryAmps (ioreg_update ''  \"Amperage\" = -999999'' d) = BatteryAmps d"
proof -
  have a: "Atoi ''-999999'' = (- 999999, True)" by code_simp
  have "BatteryAmps (ioreg_update s d) = BatteryAmps d"
    if "1 < length (pat_batteryA s) \<and> pat_batteryA s ! 1 = ''-999999''"
    using that a by (simp add: ioreg_update_eq kept_def extractInt_eq word_sle_eq)
  moreover have "BatteryAmps (ioreg_update ''  \"Amperage\" = -999999'' d) = BatteryAmps d"
    by (simp add: ioreg_update_eq kept_def amps_sample)
  ultimately show ?thesis using extractInt_eq[of s re mn mx] by blast
qed

text \<open>
  Witness: in a dump with a charger reading of 65 W and an amperage of -999999, the
  amperage is rejected and the wattage accepted.
\<close>

theorem extractInt_contract_witness:
  "1 < length (pat_batteryA ''\"Watts\"=65 \"Amperage\" = -999999'')
   \<and> pat_batteryA ''\"Watts\"=65 \"Amperage\" = -999999'' ! 1 = ''-999999''
   \<and> extractInt ''\"Watts\"=65 \"Amperage\" = -999999'' pat_batteryA (- 15000) 15000 = (0, False)
   \<and> extractInt ''\"Watts\"=65 \"Amperage\" = -999999'' pat_watts 0 500 = (65, True)
   \<and> BatteryAmps (ioreg_update ''\"Watts\"=65 \"Amperage\" = -999999'' zero_data) = 0"
proof -
  let ?s = "''\"Watts\"=65 \"Amperage\" = -999999''"
  have m: "pat_batteryA ?s = [''\"Amperage\" = -999999'', ''-999999'']" by code_simp
  have w: "pat_watts ?s = [''\"Watts\"=65'', ''65'']" by code_simp
  have a: "Atoi ''-999999'' = (- 999999, True)" "Atoi ''65'' = (65, True)" by code_simp+
  have z: "BatteryAmps zero_data = 0" by (simp add: zero_data_def)
  show ?thesis
    using extractInt_contract [of ?s pat_batteryA "- 15000" 15000 zero_data]
      extractInt_contract [of ?s pat_watts 0 500 zero_data] m w a z
    by (simp add: word_sle_eq)
qed

section \<open>A failed poll\<close>

text \<open>
  C7. When the command of a turn of the poll loop ends with an error, the turn changes
  neither the snapshot nor the terminal: it only sleeps its five seconds, and the loop
  goes on with the next turn from the state it had.
\<close>

theorem poll_failure_skips_cycle:
  "poll_cycle (out, Some e) w = w\<lparr>slept := slept w + 5\<rparr>
   \<and> data (poll_cycle (out, Some e) w) = data w
   \<and> stdout (poll_cycle (out, Some e) w) = stdout w
   \<and> renders (poll_cycle (out, Some e) w) = renders w
   \<and> pollIoreg ((out, Some e) # rs) w = pollIoreg rs (w\<lparr>slept := slept w + 5\<rparr>)"
  by (simp add: poll_cycle_def)

text \<open>
  For contrast, a turn whose command succeeds does update the snapshot: after a failed
  turn and a successful one the charger wattage is the one of the second dump.
\<close>

lemma poll_success_updates:
  "ChargerWatts (data (pollIoreg [(''garbage'', Some ''exit status 1''), (''\"Watts\"=65'', None)] w)) = 65"
proof -
  have "extractInt ''\"Watts\"=65'' pat_watts 0 500 = (65, True)"
    by code_simp
  then show ?thesis by (simp add: poll_cycle_def ioreg_update_eq kept_def)
qed

section \<open>Which readings reach the snapshot\<close>

text \<open>
  C1, as amended. The slow producer writes a bounded field exactly when \<open>extractInt\<close>
  succeeds for the field's pattern and range, and a boolean field exactly when its
  pattern matches; every other field of the snapshot keeps its value. So each bounded
  field afterwards holds its previous value or a value inside its range.
  The fast producer writes a field only when the field's pattern matches the line: a
  field keeps its value when the pattern does not match, and receives the parsed capture
  when the pattern matches and the capture parses. Its patterns capture no sign, so a
  negative value is never written: each of the four milliwatt fields afterwards holds its
  previous value or a non-negative one, which is their whole range. For \<open>BatteryPct\<close> the
  same holds for the lower end of its range only; the upper end, 100, is not checked. The
  fast producer writes no other field.
\<close>

theorem snapshot_updates:
  "ioreg_update s d =
     d\<lparr>ChargerWatts := kept (extractInt s pat_watts 0 500) (ChargerWatts d),
       ChargerVoltage := kept (extractInt s pat_adapterV 0 50000) (ChargerVoltage d),
       ChargerCurrent := kept (extractInt s pat_adapterA 0 10000) (ChargerCurrent d),
       BatteryVoltage := kept (extractInt s pat_batteryV 5000 25000) (BatteryVoltage d),
       BatteryAmps := kept (extractInt s pat_batteryA (- 15000) 15000) (BatteryAmps d),
       Temperature := kept (extractInt s pat_temp 0 10000) (Temperature d),
       IsCharging := (if 1 < length (pat_charging s) then pat_charging s ! 1 = ''Yes''
                      else IsCharging d),
       OnAC := (if 1 < length (pat_external s) then pat_external s ! 1 = ''Yes''
                else OnAC d)\<rparr>
   \<and> (ChargerWatts (ioreg_update s d) = ChargerWatts d
        \<or> 0 \<le>s ChargerWatts (ioreg_update s d) \<and> ChargerWatts (ioreg_update s d) \<le>s 500)
   \<and> (ChargerVoltage (ioreg_update s d) = ChargerVoltage d
        \<or> 0 \<le>s ChargerVoltage (ioreg_update s d) \<and> ChargerVoltage (ioreg_update s d) \<le>s 50000)
   \<and> (ChargerCurrent (ioreg_update s d) = ChargerCurrent d
        \<or> 0 \<le>s ChargerCurrent (ioreg_update s d) \<and> ChargerCurrent (ioreg_update s d) \<le>s 10000)
   \<and> (BatteryVoltage (ioreg_update s d) = BatteryVoltage d
        \<or> 5000 \<le>s BatteryVoltage (ioreg_update s d) \<and> BatteryVoltage (ioreg_update s d) \<le>s 25000)
   \<and> (BatteryAmps (ioreg_update s d) = BatteryAmps d
        \<or> - 15000 \<le>s BatteryAmps (ioreg_update s d) \<and> BatteryAmps (ioreg_update s d) \<le>s 15000)
   \<and> (Temperature (ioreg_update s d) = Temperature d
        \<or> 0 \<le>s Temperature (ioreg_update s d) \<and> Temperature (ioreg_update s d) \<le>s 10000)
   \<and> process_line t d =
       d\<lparr>CPUPower := CPUPower (process_line t d), GPUPower := GPUPower (process_line t d),
         ANEPower := ANEPower (process_line t d),
         PackagePower := PackagePower (process_line t d),
         BatteryPct := BatteryPct (process_line t d)\<rparr>
   \<and> (cpuPowerRe t = [] \<longrightarrow> CPUPower (process_line t d) = CPUPower d)
   \<and> (gpuPowerRe t = [] \<longrightarrow> GPUPower (process_line t d) = GPUPower d)
   \<and> (anePowerRe t = [] \<longrightarrow> ANEPower (process_line t d) = ANEPower d)
   \<and> (packageRe t = [] \<longrightarrow> PackagePower (process_line t d) = PackagePower d)
   \<and> (batteryPctRe t = [] \<longrightarrow> BatteryPct (process_line t d) = BatteryPct d)
   \<and> (cpuPowerRe t \<noteq> [] \<and> snd (ParseFloat (cpuPowerRe t ! 1))
        \<longrightarrow> CPUPower (process_line t d) = fst (ParseFloat (cpuPowerRe t ! 1))
            \<and> f64_nonneg (CPUPower (process_line t d)))
   \<and> (gpuPowerRe t \<noteq> [] \<and> snd (ParseFloat (gpuPowerRe t ! 1))
        \<longrightarrow> GPUPower (process_line t d) = fst (ParseFloat (gpuPowerRe t ! 1))
            \<and> f64_nonneg (GPUPower (process_line t d)))
   \<and> (anePowerRe t \<noteq> [] \<and> snd (ParseFloat (anePowerRe t ! 1))
        \<longrightarrow> ANEPower (process_line t d) = fst (ParseFloat (anePowerRe t ! 1))
            \<and> f64_nonneg (ANEPower (process_line t d)))
   \<and> (packageRe t \<noteq> [] \<and> snd (ParseFloat (packageRe t ! 1))
        \<longrightarrow> PackagePower (process_line t d) = fst (ParseFloat (packageRe t ! 1))
            \<and> f64_nonneg (PackagePower (process_line t d)))
   \<and> (batteryPctRe t \<noteq> [] \<and> snd (Atoi (batteryPctRe t ! 1))
        \<longrightarrow> BatteryPct (process_line t d) = fst (Atoi (batteryPctRe t ! 1))
            \<and> 0 \<le>s BatteryPct (process_line t d))
   \<and> (CPUPower (process_line t d) = CPUPower d \<or> f64_nonneg (CPUPower (process_line t d)))
   \<and> (GPUPower (process_line t d) = GPUPower d \<or> f64_nonneg (GPUPower (process_line t d)))
   \<and> (ANEPower (process_line t d) = ANEPower d \<or> f64_nonneg (ANEPower (process_line t d)))
   \<and> (PackagePower (process_line t d) = PackagePower d
        \<or> f64_nonneg (PackagePower (process_line t d)))
   \<and> (BatteryPct (process_line t d) = BatteryPct d \<or> 0 \<le>s BatteryPct (process_line t d))"
proof -
  note r = kept_range
  have slow: "ChargerWatts (ioreg_update s d) = ChargerWatts d
        \<or> 0 \<le>s ChargerWatts (ioreg_update s d) \<and> ChargerWatts (ioreg_update s d) \<le>s 500"
    "ChargerVoltage (ioreg_update s d) = ChargerVoltage d
        \<or> 0 \<le>s ChargerVoltage (ioreg_update s d) \<and> ChargerVoltage (ioreg_update s d) \<le>s 50000"
    "ChargerCurrent (ioreg_update s d) = ChargerCurrent d
        \<or> 0 \<le>s ChargerCurrent (ioreg_update s d) \<and> ChargerCurrent (ioreg_update s d) \<le>s 10000"
    "BatteryVoltage (ioreg_update s d) = BatteryVoltage d
        \<or> 5000 \<le>s BatteryVoltage (ioreg_update s d) \<and> BatteryVoltage (ioreg_update s d) \<le>s 25000"
    "BatteryAmps (ioreg_update s d) = BatteryAmps d
        \<or> - 15000 \<le>s BatteryAmps (ioreg_update s d) \<and> BatteryAmps (ioreg_update s d) \<le>s 15000"
    "Temperature (ioreg_update s d) = Temperature d
        \<or> 0 \<le>s Temperature (ioreg_update s d) \<and> Temperature (ioreg_update s d) \<le>s 10000"
    using r[of s pat_watts 0 500 "ChargerWatts d"] r[of s pat_adapterV 0 50000 "ChargerVoltage d"]
      r[of s pat_adapterA 0 10000 "ChargerCurrent d"]
      r[of s pat_batteryV 5000 25000 "BatteryVoltage d"]
      r[of s pat_batteryA "- 15000" 15000 "BatteryAmps d"]
      r[of s pat_temp 0 10000 "Temperature d"]
    by (simp_all add: ioreg_update_eq)
  have fast: "process_line t d =
       d\<lparr>CPUPower := CPUPower (process_line t d), GPUPower := GPUPower (process_line t d),
         ANEPower := ANEPower (process_line t d),
         PackagePower := PackagePower (process_line t d),
         BatteryPct := BatteryPct (process_line t d)\<rparr>"
    by (simp add: process_line_eq)
  have fields: "CPUPower (process_line t d) =
      (if cpuPowerRe t \<noteq> [] then fst (ParseFloat (cpuPowerRe t ! 1)) else CPUPower d)"
    "GPUPower (process_line t d) =
      (if gpuPowerRe t \<noteq> [] then fst (ParseFloat (gpuPowerRe t ! 1)) else GPUPower d)"
    "ANEPower (process_line t d) =
      (if anePowerRe t \<noteq> [] then fst (ParseFloat (anePowerRe t ! 1)) else ANEPower d)"
    "PackagePower (process_line t d) =
      (if packageRe t \<noteq> [] then fst (ParseFloat (packageRe t ! 1)) else PackagePower d)"
    "BatteryPct (process_line t d) =
      (if batteryPctRe t \<noteq> [] then fst (Atoi (batteryPctRe t ! 1)) else BatteryPct d)"
    by (simp_all add: process_line_eq)
  have none: "cpuPowerRe t = [] \<longrightarrow> CPUPower (process_line t d) = CPUPower d"
    "gpuPowerRe t = [] \<longrightarrow> GPUPower (process_line t d) = GPUPower d"
    "anePowerRe t = [] \<longrightarrow> ANEPower (process_line t d) = ANEPower d"
    "packageRe t = [] \<longrightarrow> PackagePower (process_line t d) = PackagePower d"
    "batteryPctRe t = [] \<longrightarrow> BatteryPct (process_line t d) = BatteryPct d"
    by (simp_all add: fields)
  have some: "cpuPowerRe t \<noteq> [] \<and> snd (ParseFloat (cpuPowerRe t ! 1))
        \<longrightarrow> CPUPower (process_line t d) = fst (ParseFloat (cpuPowerRe t ! 1))
            \<and> f64_nonneg (CPUPower (process_line t d))"
    "gpuPowerRe t \<noteq> [] \<and> snd (ParseFloat (gpuPowerRe t ! 1))
        \<longrightarrow> GPUPower (process_line t d) = fst (ParseFloat (gpuPowerRe t ! 1))
            \<and> f64_nonneg (GPUPower (process_line t d))"
    "anePowerRe t \<noteq> [] \<and> snd (ParseFloat (anePowerRe t ! 1))
        \<longrightarrow> ANEPower (process_line t d) = fst (ParseFloat (anePowerRe t ! 1))
            \<and> f64_nonneg (ANEPower (process_line t d))"
    "packageRe t \<noteq> [] \<and> snd (ParseFloat (packageRe t ! 1))
        \<longrightarrow> PackagePower (process_line t d) = fst (ParseFloat (packageRe t ! 1))
            \<and> f64_nonneg (PackagePower (process_line t d))"
    "batteryPctRe t \<noteq> [] \<and> snd (Atoi (batteryPctRe t ! 1))
        \<longrightarrow> BatteryPct (process_line t d) = fst (Atoi (batteryPctRe t ! 1))
            \<and> 0 \<le>s BatteryPct (process_line t d)"
    using batteryPct_capture[of t] Atoi_nonneg[of "batteryPctRe t ! 1"]
    by (auto simp: fields ParseFloat_nonneg)
  show ?thesis
    by (intro conjI) (fact ioreg_update_eq slow fast none some fast_never_negative)+
qed

text \<open>
  Witness: a line that all five patterns match writes all five fields, the empty line
  writes none, and a dump with a wattage of 65 writes the charger wattage.
\<close>

theorem snapshot_updates_witness:
  "cpuPowerRe [] = [] \<and> gpuPowerRe [] = [] \<and> anePowerRe [] = [] \<and> packageRe [] = []
   \<and> batteryPctRe [] = []
   \<and> process_line [] zero_data = zero_data
   \<and> cpuPowerRe ''CPU Power: 8 mW; GPU Power: 2 mW; percent_charge: 87'' \<noteq> []
   \<and> snd (ParseFloat (cpuPowerRe ''CPU Power: 8 mW; GPU Power: 2 mW; percent_charge: 87'' ! 1))
   \<and> gpuPowerRe ''CPU Power: 8 mW; GPU Power: 2 mW; percent_charge: 87'' \<noteq> []
   \<and> snd (ParseFloat (gpuPowerRe ''CPU Power: 8 mW; GPU Power: 2 mW; percent_charge: 87'' ! 1))
   \<and> batteryPctRe ''CPU Power: 8 mW; GPU Power: 2 mW; percent_charge: 87'' \<noteq> []
   \<and> snd (Atoi (batteryPctRe ''CPU Power: 8 mW; GPU Power: 2 mW; percent_charge: 87'' ! 1))
   \<and> process_line ''CPU Power: 8 mW; GPU Power: 2 mW; percent_charge: 87'' zero_data
       = zero_data\<lparr>CPUPower := Fin 8, GPUPower := Fin 2, BatteryPct := 87\<rparr>
   \<and> anePowerRe ''ANE Power: 4 mW; Combined Power (CPU + GPU + ANE): 14 mW'' \<noteq> []
   \<and> snd (ParseFloat (anePowerRe ''ANE Power: 4 mW; Combined Power (CPU + GPU + ANE): 14 mW'' ! 1))
   \<and> packageRe ''ANE Power: 4 mW; Combined Power (CPU + GPU + ANE): 14 mW'' \<noteq> []
   \<and> snd (ParseFloat (packageRe ''ANE Power: 4 mW; Combined Power (CPU + GPU + ANE): 14 mW'' ! 1))
   \<and> process_line ''ANE Power: 4 mW; Combined Power (CPU + GPU + ANE): 14 mW'' zero_data
       = zero_data\<lparr>ANEPower := Fin 4, PackagePower := Fin 14\<rparr>
   \<and> ioreg_update ''\"Watts\"=65'' zero_data = zero_data\<lparr>ChargerWatts := 65\<rparr>"
proof -
  let ?a = "''CPU Power: 8 mW; GPU Power: 2 mW; percent_charge: 87''"
  let ?b = "''ANE Power: 4 mW; Combined Power (CPU + GPU + ANE): 14 mW''"
  let ?s = "''\"Watts\"=65''"
  have e: "cpuPowerRe [] = []" "gpuPowerRe [] = []" "anePowerRe [] = []"
    "packageRe [] = []" "batteryPctRe [] = []"
    by code_simp+
  have a: "cpuPowerRe ?a = [''CPU Power: 8 mW'', ''8'']" "gpuPowerRe ?a = [''GPU Power: 2 mW'', ''2'']"
    "anePowerRe ?a = []" "packageRe ?a = []"
    "batteryPctRe ?a = [''percent_charge: 87'', ''87'']"
    by code_simp+
  have b: "cpuPowerRe ?b = []" "gpuPowerRe ?b = []" "anePowerRe ?b = [''ANE Power: 4 mW'', ''4'']"
    "packageRe ?b = [''Combined Power (CPU + GPU + ANE): 14 mW'', ''14'']"
    "batteryPctRe ?b = []"
    by code_simp+
  have p: "ParseFloat ''8'' = (Fin 8, True)" "ParseFloat ''2'' = (Fin 2, True)"
    "ParseFloat ''4'' = (Fin 4, True)" "ParseFloat ''14'' = (Fin 14, True)"
    "Atoi ''87'' = (87, True)"
    by code_simp+
  have s: "extractInt ?s pat_watts 0 500 = (65, True)"
    "extractInt ?s pat_adapterV 0 50000 = (0, False)"
    "extractInt ?s pat_adapterA 0 10000 = (0, False)"
    "extractInt ?s pat_batteryV 5000 25000 = (0, False)"
    "extractInt ?s pat_batteryA (- 15000) 15000 = (0, False)"
    "extractInt ?s pat_temp 0 10000 = (0, False)"
    "pat_charging ?s = []" "pat_external ?s = []"
    by code_simp+
  note T0 = snapshot_updates [of ?s zero_data "[]"]
  note TA = snapshot_updates [of ?s zero_data ?a]
  note TB = snapshot_updates [of ?s zero_data ?b]
  have u: "ioreg_update ?s zero_data = zero_data\<lparr>ChargerWatts := 65\<rparr>"
    by (subst TA [THEN conjunct1]) (simp add: s kept_def zero_data_def)
  have f0: "process_line [] zero_data =
       zero_data\<lparr>CPUPower := CPUPower (process_line [] zero_data),
         GPUPower := GPUPower (process_line [] zero_data),
         ANEPower := ANEPower (process_line [] zero_data),
         PackagePower := PackagePower (process_line [] zero_data),
         BatteryPct := BatteryPct (process_line [] zero_data)\<rparr>"
    using T0 by (elim conjE)
  have n0: "CPUPower (process_line [] zero_data) = CPUPower zero_data"
    "GPUPower (process_line [] zero_data) = GPUPower zero_data"
    "ANEPower (process_line [] zero_data) = ANEPower zero_data"
    "PackagePower (process_line [] zero_data) = PackagePower zero_data"
    "BatteryPct (process_line [] zero_data) = BatteryPct zero_data"
    using T0 e by blast+
  have p0: "process_line [] zero_data = zero_data"
    by (subst f0) (simp only: n0, simp)
  have fa: "process_line ?a zero_data =
       zero_data\<lparr>CPUPower := CPUPower (process_line ?a zero_data),
         GPUPower := GPUPower (process_line ?a zero_data),
         ANEPower := ANEPower (process_line ?a zero_data),
         PackagePower := PackagePower (process_line ?a zero_data),
         BatteryPct := BatteryPct (process_line ?a zero_data)\<rparr>"
    using TA by (elim conjE)
  have ha: "cpuPowerRe ?a \<noteq> [] \<and> snd (ParseFloat (cpuPowerRe ?a ! 1))"
    "gpuPowerRe ?a \<noteq> [] \<and> snd (ParseFloat (gpuPowerRe ?a ! 1))"
    "batteryPctRe ?a \<noteq> [] \<and> snd (Atoi (batteryPctRe ?a ! 1))"
    by (simp_all add: a p)
  have na: "CPUPower (process_line ?a zero_data) = fst (ParseFloat (cpuPowerRe ?a ! 1))"
    "GPUPower (process_line ?a zero_data) = fst (ParseFloat (gpuPowerRe ?a ! 1))"
    "ANEPower (process_line ?a zero_data) = ANEPower zero_data"
    "PackagePower (process_line ?a zero_data) = PackagePower zero_data"
    "BatteryPct (process_line ?a zero_data) = fst (Atoi (batteryPctRe ?a ! 1))"
    using TA ha a(3,4) by blast+
  have pa: "process_line ?a zero_data
       = zero_data\<lparr>CPUPower := Fin 8, GPUPower := Fin 2, BatteryPct := 87\<rparr>"
    by (subst fa) (simp only: na, simp add: a p)
  have fb: "process_line ?b zero_data =
       zero_data\<lparr>CPUPower := CPUPower (process_line ?b zero_data),
         GPUPower := GPUPower (process_line ?b zero_data),
         ANEPower := ANEPower (process_line ?b zero_data),
         PackagePower := PackagePower (process_line ?b zero_data),
         BatteryPct := BatteryPct (process_line ?b zero_data)\<rparr>"
    using TB by (elim conjE)
  have hb: "anePowerRe ?b \<noteq> [] \<and> snd (ParseFloat (anePowerRe ?b ! 1))"
    "packageRe ?b \<noteq> [] \<and> snd (ParseFloat (packageRe ?b ! 1))"
    by (simp_all add: b p)
  have nb: "CPUPower (process_line ?b zero_data) = CPUPower zero_data"
    "GPUPower (process_line ?b zero_data) = GPUPower zero_data"
    "ANEPower (process_line ?b zero_data) = fst (ParseFloat (anePowerRe ?b ! 1))"
    "PackagePower (process_line ?b zero_data) = fst (ParseFloat (packageRe ?b ! 1))"
    "BatteryPct (process_line ?b zero_data) = BatteryPct zero_data"
    using TB hb b(1,2,5) by blast+
  have pb: "process_line ?b zero_data
       = zero_data\<lparr>ANEPower := Fin 4, PackagePower := Fin 14\<rparr>"
    by (subst fb) (simp only: nb, simp add: b p)
  show ?thesis
    using e p0 ha pa hb pb u by (intro conjI) simp_all
qed

text \<open>
  C1 as stated fails on the fast producer, which checks no range and discards parse
  errors: \<^verbatim>\<open>percent_charge: 150\<close> stores 150 in \<open>BatteryPct\<close>, outside 0 to 100, and the
  unparsable reading \<^verbatim>\<open>1.2.3\<close> replaces a stored \<open>CPUPower\<close> of 1500 by 0.
\<close>

theorem fast_producer_stores_unchecked:
  "BatteryPct (process_line ''percent_charge: 150'' zero_data) = 150
   \<and> \<not> (150::go_int) \<le>s 100
   \<and> cpuPowerRe ''CPU Power: 1.2.3 mW'' = [''CPU Power: 1.2.3 mW'', ''1.2.3'']
   \<and> ParseFloat ''1.2.3'' = (Fin 0, False)
   \<and> CPUPower (process_line ''CPU Power: 1.2.3 mW'' (zero_data\<lparr>CPUPower := Fin 1500\<rparr>)) = Fin 0"
  by (simp add: process_line_eq pct_150 atoi_150 cpu_123 parse_123 word_sle_eq)

section \<open>The scenarios of the fast producer\<close>

text \<open>
  C6. Whatever the snapshot held, the line \<^verbatim>\<open>CPU Power: 1500.0 mW\<close> stores 1500 in
  \<open>CPUPower\<close>, which the renderer scales to \<open>cpuW = 1.5\<close>, and the line
  \<^verbatim>\<open>percent_charge: 87\<close> stores 87 in \<open>BatteryPct\<close>. The values 1500, 1000 and 1.5 are
  binary64 numbers, so the division is exact.
\<close>

theorem fast_producer_scenarios:
  "CPUPower (process_line ''CPU Power: 1500.0 mW'' d) = Fin 1500
   \<and> cpuW (process_line ''CPU Power: 1500.0 mW'' d) = Fin (3 / 2)
   \<and> BatteryPct (process_line ''percent_charge: 87'' d) = 87"
proof -
  have c: "CPUPower (process_line ''CPU Power: 1500.0 mW'' d) = Fin 1500"
    by (simp add: process_line_eq cpu_sample parse_sample)
  have w: "cpuW (process_line ''CPU Power: 1500.0 mW'' d) = Fin (3 / 2)"
    unfolding cpuW_def c by (rule scale_sample)
  have b: "BatteryPct (process_line ''percent_charge: 87'' d) = 87"
    by (simp add: process_line_eq pct_sample atoi_sample)
  from c w b show ?thesis by blast
qed

section \<open>Launch failure\<close>

text \<open>
  C8. When the pipe cannot be created, or the process cannot be started, \<open>main\<close> returns
  after printing the two start-up control sequences and the error message: \<open>render\<close> has
  not been called and the snapshot is untouched, whatever lines the process would have
  produced.
\<close>

theorem launch_failure_never_renders:
  "(\<exists>w'. main env (Some e) start_err lines w = Inr w'
         \<and> renders w' = renders w \<and> data w' = data w
         \<and> stdout w' = stdout w @ ESC # ''[?25l'' @ ESC # ''[H'' @ ESC # ''[2J''
                        @ ''Error: '' @ e @ [CHR 0x0A])
   \<and> (\<exists>w'. main env None (Some e) lines w = Inr w'
         \<and> renders w' = renders w \<and> data w' = data w
         \<and> stdout w' = stdout w @ ESC # ''[?25l'' @ ESC # ''[H'' @ ESC # ''[2J''
                        @ ''Error starting powermetrics (need sudo): '' @ e @ [CHR 0x0A])"
  by (simp add: main_def Print_def Println_def)

text \<open>
  For contrast, after a successful launch each line that starts with the marker
  \<^verbatim>\<open>***\<close> calls \<open>render\<close> once.
\<close>

lemma launch_success_renders:
  "\<exists>w'. main env None None [''*** Sampled system activity ***''] w = Inr w'
        \<and> renders w' = renders w + 1"
proof -
  let ?w = "Print (ESC # ''[H'' @ ESC # ''[2J'') (Print (ESC # ''[?25l'') w)"
  let ?t = "''*** Sampled system activity ***''"
  have h: "HasPrefix ?t ''***''" by (simp add: HasPrefix_def)
  obtain w' out where "render env (?w\<lparr>data := process_line ?t (data ?w)\<rparr>) = Inr w'"
    "renders w' = renders (?w\<lparr>data := process_line ?t (data ?w)\<rparr>) + 1"
    using render_frame by blast
  then show ?thesis
    using h by (simp add: main_def scan_step_def Let_def Print_def)
qed

section \<open>Rendering leaves the snapshot alone\<close>

text \<open>
  C9. For every state and every formatter and clock, \<open>render\<close> returns without a panic;
  the snapshot afterwards is the snapshot before, and the only change is text appended to
  the terminal (and the count of calls, which is not program state).
\<close>

theorem render_preserves_snapshot:
  "\<exists>w' out. render env w = Inr w' \<and> data w' = data w \<and> slept w' = slept w
             \<and> stdout w' = stdout w @ out \<and> renders w' = renders w + 1"
  using render_frame [of env w] by blast

end
